theory Spec2Isabelle
  imports Complex_Main "HOL-Library.Sublist" "HOL-Library.Product_Lexorder"
    "HOL-Library.List_Lexorder"
begin

section \<open>Feature extractor: a shallow embedding of \<open>libs/feature_extractor.py\<close>\<close>

text \<open>
  The module is a class of stateless helpers over pandas tables. Every helper is
  embedded as a HOL function of the same name. A call that raises in Python returns
  \<open>Inl\<close> of the exception's kind, a call that returns gives \<open>Inr\<close> of its value.
\<close>

subsection \<open>Exceptions\<close>

datatype error =
    KeyError
  | AttributeError
  | TypeError
  | ValueError
  | IndexError
  | ZeroDivisionError

subsection \<open>Accuracy scoring: \<open>get_true_pred_perc\<close>\<close>

text \<open>
  The loop \<open>for index in range(len(answers))\<close> is a recursion over the list of indices
  the range yields, with the counter \<open>collisions\<close> as accumulator. Both subscripts
  raise \<open>IndexError\<close> out of range; \<open>answers[index]\<close> is evaluated first.
  The final quotient \<open>collisions * 100 / len(answers)\<close> is Python's true division, taken
  here in the reals, and raises \<open>ZeroDivisionError\<close> on an empty \<open>answers\<close>.
\<close>

definition subscript :: "'a list \<Rightarrow> nat \<Rightarrow> error + 'a" where
  "subscript xs i = (if i < length xs then Inr (xs ! i) else Inl IndexError)"

fun count_collisions :: "'a list \<Rightarrow> 'a list \<Rightarrow> nat list \<Rightarrow> nat \<Rightarrow> error + nat" where
  "count_collisions predictions answers [] collisions = Inr collisions"
| "count_collisions predictions answers (index # rest) collisions =
     (case subscript answers index of
        Inl e \<Rightarrow> Inl e
      | Inr a \<Rightarrow>
          (case subscript predictions index of
             Inl e \<Rightarrow> Inl e
           | Inr p \<Rightarrow>
               count_collisions predictions answers rest
                 (if a = p then collisions + 1 else collisions)))"

definition get_true_pred_perc :: "'a list \<Rightarrow> 'a list \<Rightarrow> error + real" where
  "get_true_pred_perc predictions answers =
     (case count_collisions predictions answers [0..<length answers] 0 of
        Inl e \<Rightarrow> Inl e
      | Inr collisions \<Rightarrow>
          if length answers = 0 then Inl ZeroDivisionError
          else Inr (real collisions * 100 / real (length answers)))"

text \<open>The number of positions of \<open>answers\<close> at which the two sequences agree.\<close>

definition matching_positions :: "'a list \<Rightarrow> 'a list \<Rightarrow> nat" where
  "matching_positions predictions answers =
     length (filter (\<lambda>i. answers ! i = predictions ! i) [0..<length answers])"

subsection \<open>Tables\<close>

text \<open>
  A pandas \<open>DataFrame\<close> is an ordered list of column names and an ordered list of rows,
  a row holding one cell per column. A cell is a number (Python's \<open>int\<close> and \<open>float\<close>
  compare and hash alike, \<open>1 == 1.0\<close>, so both are read as reals), a string, a parsed
  timestamp, a calendar date, or the missing value \<open>NaN\<close>. Row labels (the index) are
  left out: no helper of the module reads them.
\<close>

record timestamp =
  year :: int
  month :: int
  day :: int
  dayofyear :: int
  hour :: int
  minute :: int

datatype cell =
    Num real
  | StrV string
  | TimeV timestamp
  | DateV int int int
  | NaN

record dataframe =
  columns :: "string list"
  rows :: "cell list list"

text \<open>A table is well formed when its column names are distinct and every row has one
  cell per column.\<close>

definition well_formed :: "dataframe \<Rightarrow> bool" where
  "well_formed df \<longleftrightarrow>
     distinct (columns df) \<and> list_all (\<lambda>r. length r = length (columns df)) (rows df)"

fun index_of :: "'a list \<Rightarrow> 'a \<Rightarrow> nat option" where
  "index_of [] c = None"
| "index_of (x # xs) c = (if x = c then Some 0 else map_option Suc (index_of xs c))"

text \<open>\<open>df[column]\<close>: the column as a series, \<open>KeyError\<close> when there is no such column.\<close>

definition getitem :: "dataframe \<Rightarrow> string \<Rightarrow> error + cell list" where
  "getitem df column =
     (case index_of (columns df) column of
        None \<Rightarrow> Inl KeyError
      | Some j \<Rightarrow> Inr (map (\<lambda>r. r ! j) (rows df)))"

text \<open>\<open>df[column] = values\<close>: replaces the column where it exists, appends it as the last
  column otherwise; pandas raises \<open>ValueError\<close> unless there is one value per row.\<close>

definition setitem :: "dataframe \<Rightarrow> string \<Rightarrow> cell list \<Rightarrow> error + dataframe" where
  "setitem df column values =
     (if length values \<noteq> length (rows df) then Inl ValueError
      else case index_of (columns df) column of
        Some j \<Rightarrow> Inr (df\<lparr>rows := map2 (\<lambda>r v. r[j := v]) (rows df) values\<rparr>)
      | None \<Rightarrow>
          Inr (df\<lparr>columns := columns df @ [column],
                  rows := map2 (\<lambda>r v. r @ [v]) (rows df) values\<rparr>))"

text \<open>\<open>df[mask]\<close>: the rows at which the boolean series is true, in order.\<close>

definition select_rows :: "dataframe \<Rightarrow> bool list \<Rightarrow> dataframe" where
  "select_rows df flags = df\<lparr>rows := map fst (filter snd (zip (rows df) flags))\<rparr>"

text \<open>\<open>series.map(d)\<close> for a dictionary \<open>d\<close>: a value that is no key of \<open>d\<close> becomes \<open>NaN\<close>.\<close>

definition series_map :: "(cell \<rightharpoonup> cell) \<Rightarrow> cell list \<Rightarrow> cell list" where
  "series_map d series = map (\<lambda>c. case d c of Some v \<Rightarrow> v | None \<Rightarrow> NaN) series"

text \<open>Running an operation that may raise over a series: the first exception wins.\<close>

fun traverse :: "('a \<Rightarrow> error + 'b) \<Rightarrow> 'a list \<Rightarrow> error + 'b list" where
  "traverse f [] = Inr []"
| "traverse f (x # xs) =
     (case f x of
        Inl e \<Rightarrow> Inl e
      | Inr y \<Rightarrow> (case traverse f xs of Inl e \<Rightarrow> Inl e | Inr ys \<Rightarrow> Inr (y # ys)))"

subsection \<open>Weekday numbers: \<open>make_weekday_to_num\<close>\<close>

definition week_day_mapper :: "cell \<rightharpoonup> cell" where
  "week_day_mapper =
     map_of [(StrV ''Monday'', Num 0), (StrV ''Tuesday'', Num 1), (StrV ''Wednesday'', Num 2),
             (StrV ''Thursday'', Num 3), (StrV ''Friday'', Num 4), (StrV ''Saturday'', Num 5),
             (StrV ''Sunday'', Num 6)]"

text \<open>\<open>astype("int64")\<close> on the mapped series, which holds the dictionary's integers and
  \<open>NaN\<close> for unmapped values: a number is cut to its integer part, and pandas refuses to
  cast \<open>NaN\<close> to an integer (\<open>IntCastingNaNError\<close>, a \<open>ValueError\<close>).\<close>

fun astype_int64 :: "cell \<Rightarrow> error + cell" where
  "astype_int64 (Num x) = Inr (Num (of_int (if 0 \<le> x then \<lfloor>x\<rfloor> else \<lceil>x\<rceil>)))"
| "astype_int64 c = Inl ValueError"

definition make_weekday_to_num :: "dataframe \<Rightarrow> string \<Rightarrow> error + dataframe" where
  "make_weekday_to_num df column =
     (case getitem df column of
        Inl e \<Rightarrow> Inl e
      | Inr series \<Rightarrow>
          (case traverse astype_int64 (series_map week_day_mapper series) of
             Inl e \<Rightarrow> Inl e
           | Inr numbers \<Rightarrow> setitem df ''weekdayNumerical'' numbers))"

subsection \<open>Address flag: \<open>make_address_encoding_col\<close>\<close>

text \<open>\<open>delimeter in record\<close> is the substring test on a string record and raises
  \<open>TypeError\<close> on a record that is not a string (a number, \<open>NaN\<close>).\<close>

fun contains :: "string \<Rightarrow> string \<Rightarrow> bool" where
  "contains [] d = (d = [])"
| "contains (x # xs) d = (prefix d (x # xs) \<or> contains xs d)"

fun delimeter_in :: "string \<Rightarrow> cell \<Rightarrow> error + cell" where
  "delimeter_in delimeter (StrV record) = Inr (Num (if contains record delimeter then 1 else 0))"
| "delimeter_in delimeter c = Inl TypeError"

definition make_address_encoding_col :: "dataframe \<Rightarrow> string \<Rightarrow> string \<Rightarrow> error + dataframe" where
  "make_address_encoding_col df delimeter column =
     (case getitem df column of
        Inl e \<Rightarrow> Inl e
      | Inr series \<Rightarrow>
          (case traverse (delimeter_in delimeter) series of
             Inl e \<Rightarrow> Inl e
           | Inr address \<Rightarrow> setitem df ''address_encoded'' address))"

subsection \<open>Seasons: \<open>make_seasons_col\<close>\<close>

definition season_mapper :: "cell \<rightharpoonup> cell" where
  "season_mapper =
     map_of [(Num 1, Num 1), (Num 2, Num 1), (Num 3, Num 2), (Num 4, Num 2), (Num 5, Num 2),
             (Num 6, Num 3), (Num 7, Num 3), (Num 8, Num 3), (Num 9, Num 4), (Num 10, Num 4),
             (Num 11, Num 4), (Num 12, Num 1)]"

definition make_seasons_col :: "dataframe \<Rightarrow> string \<Rightarrow> error + dataframe" where
  "make_seasons_col df column =
     (case getitem df column of
        Inl e \<Rightarrow> Inl e
      | Inr months \<Rightarrow>
          (case setitem df ''Season'' months of
             Inl e \<Rightarrow> Inl e
           | Inr df1 \<Rightarrow>
               (case getitem df1 ''Season'' of
                  Inl e \<Rightarrow> Inl e
                | Inr season \<Rightarrow> setitem df1 ''Season'' (series_map season_mapper season))))"

subsection \<open>Outlier filter: \<open>get_outlier_removed_col\<close>\<close>

text \<open>A comparison of a series with a numeric threshold is elementwise: it is false at
  \<open>NaN\<close> and raises \<open>TypeError\<close> at a cell that does not compare with a number.\<close>

fun lt_threshold :: "real \<Rightarrow> cell \<Rightarrow> error + bool" where
  "lt_threshold t (Num x) = Inr (x < t)"
| "lt_threshold t NaN = Inr False"
| "lt_threshold t c = Inl TypeError"

fun gt_threshold :: "real \<Rightarrow> cell \<Rightarrow> error + bool" where
  "gt_threshold t (Num x) = Inr (x > t)"
| "gt_threshold t NaN = Inr False"
| "gt_threshold t c = Inl TypeError"

definition get_outlier_removed_col :: "dataframe \<Rightarrow> string \<Rightarrow> real \<Rightarrow> real \<Rightarrow> error + dataframe" where
  "get_outlier_removed_col df column up_threshold low_threshold =
     (case getitem df column of
        Inl e \<Rightarrow> Inl e
      | Inr series \<Rightarrow>
          (case traverse (lt_threshold up_threshold) series of
             Inl e \<Rightarrow> Inl e
           | Inr is_below \<Rightarrow>
               (case traverse (gt_threshold low_threshold) series of
                  Inl e \<Rightarrow> Inl e
                | Inr is_above \<Rightarrow> Inr (select_rows df (map2 (\<and>) is_below is_above)))))"

text \<open>A cell of a numeric column (dtype \<open>int64\<close> or \<open>float64\<close>): a number or \<open>NaN\<close>.\<close>

definition numeric :: "cell \<Rightarrow> bool" where
  "numeric c = (case c of Num x \<Rightarrow> True | NaN \<Rightarrow> True | _ \<Rightarrow> False)"

subsection \<open>Rows with a missing value: \<open>get_nan_records\<close>\<close>

definition isnull :: "cell \<Rightarrow> bool" where
  "isnull c = (c = NaN)"

definition get_nan_records :: "dataframe \<Rightarrow> dataframe" where
  "get_nan_records df = select_rows df (map (\<lambda>r. list_ex isnull r) (rows df))"

subsection \<open>Streets and intersections: \<open>make_streets_intersections_cols\<close>\<close>

text \<open>
  The two regular expressions of the source are sequences of items, an item being one
  character of a class (\<open>\s\<close>, \<open>[/]\<close>) or a greedy run of one or more (\<open>\w+\<close>, \<open>\d+\<close>), with
  one capture group at the end.

  A character of the model is a code point below 256, and the classes are those of
  Python's \<open>re\<close> for \<open>str\<close> patterns at these code points, where they are Unicode-aware:
  \<open>\d\<close> is a decimal digit (0 to 9); \<open>\w\<close> is a character that \<open>str.isalnum\<close> accepts, or
  the underscore; \<open>\s\<close> is a character that \<open>str.isspace\<close> accepts.
\<close>

datatype char_class = Word | Space | Digit | Slash

definition is_digit :: "char \<Rightarrow> bool" where
  "is_digit c = (let n = (of_char c :: nat) in 48 \<le> n \<and> n \<le> 57)"

text \<open>\<open>str.isalpha\<close>: the ASCII letters, and in the upper half the letters of Latin-1
  (feminine and masculine ordinal, micro sign, and 192 to 255 without the multiplication
  and division signs 215 and 247).\<close>

definition is_alpha :: "char \<Rightarrow> bool" where
  "is_alpha c =
     (let n = (of_char c :: nat)
      in (65 \<le> n \<and> n \<le> 90) \<or> (97 \<le> n \<and> n \<le> 122)
         \<or> n = 170 \<or> n = 181 \<or> n = 186
         \<or> (192 \<le> n \<and> n \<le> 214) \<or> (216 \<le> n \<and> n \<le> 246) \<or> (248 \<le> n \<and> n \<le> 255))"

text \<open>\<open>str.isdecimal\<close>, \<open>str.isdigit\<close> or \<open>str.isnumeric\<close>: the digits 0 to 9, the superscripts
  two, three and one (178, 179, 185) and the fractions 188 to 190.\<close>

definition is_numeric :: "char \<Rightarrow> bool" where
  "is_numeric c =
     (let n = (of_char c :: nat)
      in (48 \<le> n \<and> n \<le> 57) \<or> n = 178 \<or> n = 179 \<or> n = 185 \<or> (188 \<le> n \<and> n \<le> 190))"

text \<open>\<open>str.isspace\<close>: the characters 9 to 13 and 28 to 32, the next-line control 133 and
  the no-break space 160.\<close>

definition is_space :: "char \<Rightarrow> bool" where
  "is_space c =
     (let n = (of_char c :: nat)
      in (9 \<le> n \<and> n \<le> 13) \<or> (28 \<le> n \<and> n \<le> 32) \<or> n = 133 \<or> n = 160)"

fun in_class :: "char_class \<Rightarrow> char \<Rightarrow> bool" where
  "in_class Word c = (is_alpha c \<or> is_numeric c \<or> c = CHR ''_'')"
| "in_class Space c = is_space c"
| "in_class Digit c = is_digit c"
| "in_class Slash c = (c = CHR ''/'')"

datatype item = One char_class | Plus char_class

text \<open>
  The backtracking matcher anchored at the start of \<open>s\<close>: a run tries its longest length
  first and gives characters back one by one. The result lists the number of characters
  each item consumed in the first match found.
\<close>

fun first_some :: "'a option list \<Rightarrow> 'a option" where
  "first_some [] = None"
| "first_some (None # rs) = first_some rs"
| "first_some (Some r # rs) = Some r"

fun match_here :: "item list \<Rightarrow> string \<Rightarrow> nat list option" where
  "match_here [] s = Some []"
| "match_here (One cls # its) s =
     (case s of
        [] \<Rightarrow> None
      | x # xs \<Rightarrow> if in_class cls x then map_option ((#) 1) (match_here its xs) else None)"
| "match_here (Plus cls # its) s =
     first_some
       (map (\<lambda>k. map_option ((#) k) (match_here its (drop k s)))
          (rev [1..<Suc (length (takeWhile (in_class cls) s))]))"

text \<open>A pattern: the items before the capture group, and the items of the group.\<close>

type_synonym pattern = "item list \<times> item list"

text \<open>The text of the group in the match anchored at the start of \<open>s\<close>.\<close>

definition match_group :: "pattern \<Rightarrow> string \<Rightarrow> string option" where
  "match_group p s =
     (case match_here (fst p @ snd p) s of
        None \<Rightarrow> None
      | Some ls \<Rightarrow>
          Some (take (sum_list (drop (length (fst p)) ls))
                  (drop (sum_list (take (length (fst p)) ls)) s)))"

text \<open>\<open>re.search\<close>: the match at the leftmost position that has one.\<close>

fun search :: "pattern \<Rightarrow> string \<Rightarrow> string option" where
  "search p [] = match_group p []"
| "search p (x # xs) =
     (case match_group p (x # xs) of Some g \<Rightarrow> Some g | None \<Rightarrow> search p xs)"

text \<open>\<^verbatim>\<open>(\w+\s\w+\s[/]\s\w+\s\w+)\<close> and \<^verbatim>\<open>\d+\s\w+\s\w+\s(\w+\s\w+)\<close>.\<close>

definition intersection_pattern :: pattern where
  "intersection_pattern =
     ([], [Plus Word, One Space, Plus Word, One Space, One Slash, One Space,
           Plus Word, One Space, Plus Word])"

definition street_pattern :: pattern where
  "street_pattern =
     ([Plus Digit, One Space, Plus Word, One Space, Plus Word, One Space],
      [Plus Word, One Space, Plus Word])"

text \<open>
  The \<open>.str\<close> accessor belongs to a column, not to a cell: pandas infers what the column
  holds from its values, the missing ones left aside, and raises \<open>AttributeError\<close> unless
  that is text or a mixture. So the accessor is there on a column with a string in it,
  on a column with values of two or more kinds, and on a column with no rows; it raises
  on a column of numbers only, of timestamps only, of dates only, and on a column of
  missing values only (which pandas holds as \<open>float64\<close>).
\<close>

datatype kind = Missing | Number | Text | Moment | Day

fun kind_of :: "cell \<Rightarrow> kind" where
  "kind_of (Num x) = Number"
| "kind_of (StrV s) = Text"
| "kind_of (TimeV t) = Moment"
| "kind_of (DateV y m d) = Day"
| "kind_of NaN = Missing"

definition str_accessible :: "cell list \<Rightarrow> bool" where
  "str_accessible series \<longleftrightarrow>
     series = []
     \<or> Text \<in> set (map kind_of series)
     \<or> 2 \<le> length (remdups (filter (\<lambda>k. k \<noteq> Missing) (map kind_of series)))"

text \<open>
  \<open>series.str.extract(pattern)\<close>: at a string the group of the first match, and \<open>NaN\<close>
  where there is no match; at a value that is not a string \<open>NaN\<close>.
\<close>

fun extract_cell :: "pattern \<Rightarrow> cell \<Rightarrow> cell" where
  "extract_cell p (StrV s) = (case search p s of Some g \<Rightarrow> StrV g | None \<Rightarrow> NaN)"
| "extract_cell p c = NaN"

definition str_extract :: "pattern \<Rightarrow> cell list \<Rightarrow> error + cell list" where
  "str_extract p series =
     (if str_accessible series then Inr (map (extract_cell p) series) else Inl AttributeError)"

definition fillna :: "string \<Rightarrow> cell \<Rightarrow> cell" where
  "fillna v c = (if isnull c then StrV v else c)"

text \<open>\<open>pd.concat([df, series], axis=1)\<close> for a series on the rows of \<open>df\<close>: one more column,
  appended last under its name.\<close>

definition concat_axis1 :: "dataframe \<Rightarrow> string \<Rightarrow> cell list \<Rightarrow> dataframe" where
  "concat_axis1 df name series =
     df\<lparr>columns := columns df @ [name], rows := map2 (\<lambda>r v. r @ [v]) (rows df) series\<rparr>"

text \<open>\<open>df.Address\<close> raises \<open>AttributeError\<close> when the table has no such column.\<close>

definition make_streets_intersections_cols :: "dataframe \<Rightarrow> error + dataframe" where
  "make_streets_intersections_cols df =
     (case getitem df ''Address'' of
        Inl e \<Rightarrow> Inl AttributeError
      | Inr address \<Rightarrow>
          (case str_extract intersection_pattern address of
             Inl e \<Rightarrow> Inl e
           | Inr found_intersection \<Rightarrow>
               (case str_extract street_pattern address of
                  Inl e \<Rightarrow> Inl e
                | Inr found_street \<Rightarrow>
                    let intersection = map (fillna '' '') found_intersection;
                        street = map (fillna '' '') found_street
                    in Inr (concat_axis1 (concat_axis1 df ''Street'' street)
                              ''Intersection'' intersection))))"

text \<open>
  What a pattern means, read as a regular expression and independently of the matcher:
  \<open>matches its m\<close> says that the text \<open>m\<close> as a whole is in the language of the items, and
  \<open>contains_match p s\<close> that some part of \<open>s\<close> is in the language of the pattern.
\<close>

inductive matches :: "item list \<Rightarrow> string \<Rightarrow> bool" where
  matches_Nil: "matches [] []"
| matches_One: "in_class cls x \<Longrightarrow> matches its xs \<Longrightarrow> matches (One cls # its) (x # xs)"
| matches_Plus: "run \<noteq> [] \<Longrightarrow> list_all (in_class cls) run \<Longrightarrow> matches its rest
                 \<Longrightarrow> matches (Plus cls # its) (run @ rest)"

definition contains_match :: "pattern \<Rightarrow> string \<Rightarrow> bool" where
  "contains_match p s \<longleftrightarrow>
     (\<exists>before m after. s = before @ m @ after \<and> matches (fst p @ snd p) m)"

subsection \<open>Counts per street: \<open>get_count_table_by_street\<close>\<close>

text \<open>\<open>series.unique()\<close>: the distinct values in order of first appearance.\<close>

definition unique :: "'a list \<Rightarrow> 'a list" where
  "unique series = rev (remdups (rev series))"

text \<open>\<open>series == elem\<close>, elementwise: a missing value equals nothing.\<close>

definition cell_eq :: "cell \<Rightarrow> cell \<Rightarrow> bool" where
  "cell_eq a b = (\<not> isnull a \<and> \<not> isnull b \<and> a = b)"

text \<open>
  \<open>series.value_counts()\<close>: each distinct value that is not missing with the number of its
  occurrences, the most frequent first.
\<close>

definition value_counts :: "cell list \<Rightarrow> (cell \<times> nat) list" where
  "value_counts series =
     (let present = filter (\<lambda>c. \<not> isnull c) series
      in sort_key (\<lambda>(c, n). - int n) (map (\<lambda>c. (c, count_list present c)) (unique present)))"

text \<open>
  The table the loop builds has the categories as row labels and one column per street:
  it is kept as the list of its row labels and the list of its columns, a column being
  its name and one cell per row label.
\<close>

record count_frame =
  labels :: "cell list"
  cols :: "(cell \<times> cell list) list"

text \<open>
  \<open>pd.concat([local_df, pd.Series(count, name=elem)], axis=1)\<close>: an outer join on the row
  labels. Labels that are new come last, the columns already there get \<open>NaN\<close> at them, and
  the new column holds the count at a label of the series and \<open>NaN\<close> elsewhere.
\<close>

definition concat_series :: "count_frame \<Rightarrow> cell \<Rightarrow> (cell \<times> nat) list \<Rightarrow> count_frame" where
  "concat_series local_df name series =
     (let new = filter (\<lambda>l. l \<notin> set (labels local_df)) (map fst series);
          labels' = labels local_df @ new
      in \<lparr>labels = labels',
          cols = map (\<lambda>(n, vs). (n, vs @ replicate (length new) NaN)) (cols local_df)
                 @ [(name, map (\<lambda>l. case map_of series l of Some n \<Rightarrow> Num (of_nat n)
                                     | None \<Rightarrow> NaN) labels')]\<rparr>)"

text \<open>The loop \<open>for elem in df['Street'].unique()\<close>, with \<open>local_df\<close> as its state.\<close>

fun street_loop :: "dataframe \<Rightarrow> cell list \<Rightarrow> count_frame \<Rightarrow> error + count_frame" where
  "street_loop df [] local_df = Inr local_df"
| "street_loop df (elem # elems) local_df =
     (if elem \<noteq> Num 0 then
        (case getitem df ''Street'' of
           Inl e \<Rightarrow> Inl e
         | Inr street \<Rightarrow>
             (case getitem (select_rows df (map (\<lambda>s. cell_eq s elem) street)) ''Category'' of
                Inl e \<Rightarrow> Inl e
              | Inr category \<Rightarrow>
                  street_loop df elems (concat_series local_df elem (value_counts category))))
      else street_loop df elems local_df)"

definition get_count_table_by_street :: "dataframe \<Rightarrow> error + count_frame" where
  "get_count_table_by_street df =
     (case getitem df ''Street'' of
        Inl e \<Rightarrow> Inl e
      | Inr street \<Rightarrow> street_loop df (unique street) \<lparr>labels = [], cols = []\<rparr>)"

text \<open>\<open>local_df.loc[row_label, column]\<close>, when both labels exist.\<close>

definition frame_cell :: "count_frame \<Rightarrow> cell \<Rightarrow> cell \<Rightarrow> cell option" where
  "frame_cell local_df row_label column =
     (case (index_of (labels local_df) row_label, map_of (cols local_df) column) of
        (Some i, Some vs) \<Rightarrow> Some (vs ! i)
      | _ \<Rightarrow> None)"

text \<open>
  Two abbreviations for the statements about the loop: the \<open>Category\<close> values of the rows
  whose \<open>Street\<close> equals \<open>elem\<close>, which is the series the loop body counts, and the cell
  that its count puts at a row label.
\<close>

definition street_categories :: "cell list \<Rightarrow> cell list \<Rightarrow> cell \<Rightarrow> cell list" where
  "street_categories street category elem =
     map fst (filter snd (zip category (map (\<lambda>s. cell_eq s elem) street)))"

definition count_cell :: "cell list \<Rightarrow> cell list \<Rightarrow> cell \<Rightarrow> cell \<Rightarrow> cell" where
  "count_cell street category elem c =
     (case map_of (value_counts (street_categories street category elem)) c of
        Some n \<Rightarrow> Num (of_nat n)
      | None \<Rightarrow> NaN)"

subsection \<open>Time columns: \<open>make_time_cols\<close>\<close>

text \<open>Sequencing of statements that may raise: the first exception ends the call.\<close>

definition and_then :: "error + 'a \<Rightarrow> ('a \<Rightarrow> error + 'b) \<Rightarrow> error + 'b" where
  "and_then r f = (case r of Inl e \<Rightarrow> Inl e | Inr x \<Rightarrow> f x)"

text \<open>
  The \<open>.dt\<close> accessor reads a field of a parsed timestamp; the missing timestamp \<open>NaT\<close> is
  the cell \<open>NaN\<close> and has no fields. On a column that is not a datetime column the
  accessor raises \<open>AttributeError\<close>.
\<close>

fun dt_field :: "(timestamp \<Rightarrow> int) \<Rightarrow> cell \<Rightarrow> error + cell" where
  "dt_field f (TimeV t) = Inr (Num (of_int (f t)))"
| "dt_field f NaN = Inr NaN"
| "dt_field f c = Inl AttributeError"

fun dt_date :: "cell \<Rightarrow> error + cell" where
  "dt_date (TimeV t) = Inr (DateV (year t) (month t) (day t))"
| "dt_date NaN = Inr NaN"
| "dt_date c = Inl AttributeError"

text \<open>\<open>df[target] = f(df[source])\<close>, elementwise.\<close>

definition assign_from :: "dataframe \<Rightarrow> string \<Rightarrow> string \<Rightarrow> (cell \<Rightarrow> error + cell) \<Rightarrow> error + dataframe" where
  "assign_from df target source f =
     and_then (getitem df source) (\<lambda>series.
     and_then (traverse f series) (\<lambda>values.
     setitem df target values))"

text \<open>
  \<open>pd.to_datetime\<close> belongs to pandas, not to this module: the parser of one cell is a
  parameter, giving a \<open>TimeV\<close> cell, \<open>NaN\<close> for a missing value, or the parse error. Each
  statement of the source reads the timestamp column again, as the source does.
\<close>

definition make_time_cols :: "(cell \<Rightarrow> error + cell) \<Rightarrow> dataframe \<Rightarrow> string \<Rightarrow> error + dataframe" where
  "make_time_cols to_datetime df timestamp_column =
     and_then (assign_from df timestamp_column timestamp_column to_datetime) (\<lambda>df.
     and_then (assign_from df ''Year'' timestamp_column (dt_field year)) (\<lambda>df.
     and_then (assign_from df ''Month'' timestamp_column (dt_field month)) (\<lambda>df.
     and_then (assign_from df ''Day'' timestamp_column dt_date) (\<lambda>df.
     and_then (assign_from df ''DayOfYear'' timestamp_column (dt_field dayofyear)) (\<lambda>df.
     and_then (assign_from df ''Hour'' timestamp_column (dt_field hour)) (\<lambda>df.
     assign_from df ''Minute'' timestamp_column (dt_field minute)))))))"

subsection \<open>Count table: \<open>get_count_table\<close>\<close>

text \<open>\<open>df[column] = v\<close> for a scalar \<open>v\<close>: the value in every row.\<close>

definition assign_scalar :: "dataframe \<Rightarrow> string \<Rightarrow> cell \<Rightarrow> dataframe" where
  "assign_scalar df column v =
     (case index_of (columns df) column of
        Some j \<Rightarrow> df\<lparr>rows := map (\<lambda>r. r[j := v]) (rows df)\<rparr>
      | None \<Rightarrow> df\<lparr>columns := columns df @ [column], rows := map (\<lambda>r. r @ [v]) (rows df)\<rparr>)"

text \<open>\<open>df[[a, b, c]]\<close>: the listed columns in the listed order, \<open>KeyError\<close> when one is missing.\<close>

definition select_columns :: "dataframe \<Rightarrow> string list \<Rightarrow> error + dataframe" where
  "select_columns df names =
     (case traverse (\<lambda>n. case index_of (columns df) n of None \<Rightarrow> Inl KeyError | Some j \<Rightarrow> Inr j)
             names of
        Inl e \<Rightarrow> Inl e
      | Inr js \<Rightarrow> Inr \<lparr>columns = names, rows = map (\<lambda>r. map (\<lambda>j. r ! j) js) (rows df)\<rparr>)"

text \<open>
  The order in which \<open>groupby\<close> sorts its keys: numbers by value, strings by code points,
  timestamps and dates in time; across kinds, numbers come before strings.
\<close>

fun cell_key :: "cell \<Rightarrow> nat \<times> real \<times> nat list \<times> int list" where
  "cell_key (Num x) = (0, x, [], [])"
| "cell_key (StrV s) = (1, 0, map of_char s, [])"
| "cell_key (TimeV t) = (2, 0, [], [year t, month t, day t, hour t, minute t])"
| "cell_key (DateV y m d) = (3, 0, [], [y, m, d])"
| "cell_key NaN = (4, 0, [], [])"

text \<open>The number a cell adds to a sum (\<open>sum\<close> skips missing values).\<close>

fun cell_number :: "cell \<Rightarrow> real" where
  "cell_number (Num x) = x"
| "cell_number c = 0"

text \<open>
  \<open>.groupby([category, time]).agg('sum').reset_index()\<close> on the three selected columns:
  rows with a missing key are dropped, the others are grouped by their pair of keys, the
  groups come in the order of their keys, and \<open>Count\<close> is summed in each. Grouping by a
  name that labels two of the selected columns raises \<open>ValueError\<close>.
\<close>

definition groupby_sum :: "dataframe \<Rightarrow> error + dataframe" where
  "groupby_sum selected =
     (if \<not> distinct (columns selected) then Inl ValueError
      else
        let keyed = filter (\<lambda>r. \<not> isnull (r ! 0) \<and> \<not> isnull (r ! 1)) (rows selected);
            keys = sort_key (\<lambda>(a, b). (cell_key a, cell_key b))
                     (unique (map (\<lambda>r. (r ! 0, r ! 1)) keyed))
        in Inr \<lparr>columns = columns selected,
                rows = map (\<lambda>(a, b).
                         [a, b, Num (sum_list (map (\<lambda>r. cell_number (r ! 2))
                                  (filter (\<lambda>r. r ! 0 = a \<and> r ! 1 = b) keyed)))]) keys\<rparr>)"

text \<open>
  \<open>count_df = df\<close> is an alias, so \<open>count_df["Count"] = 1\<close> writes the caller's table too:
  the function returns the caller's table as it is afterwards, and the result or the
  exception.
\<close>

definition get_count_table :: "dataframe \<Rightarrow> string \<Rightarrow> string \<Rightarrow> dataframe \<times> (error + dataframe)" where
  "get_count_table df category time =
     (let count_df = assign_scalar df ''Count'' (Num 1)
      in (count_df,
          case select_columns count_df [category, time, ''Count''] of
            Inl e \<Rightarrow> Inl e
          | Inr selected \<Rightarrow> groupby_sum selected))"

subsection \<open>Rare categories: \<open>get_cols_names_below_threshold\<close>\<close>

definition get_cols_names_below_threshold :: "dataframe \<Rightarrow> real \<Rightarrow> error + cell list" where
  "get_cols_names_below_threshold df threshold =
     and_then (getitem df ''Count'') (\<lambda>count.
     and_then (traverse (lt_threshold threshold) count) (\<lambda>is_below.
     and_then (getitem (select_rows df is_below) ''Category'') (\<lambda>category.
     Inr (unique category))))"

subsection \<open>Notions for the statements\<close>

text \<open>
  \<open>changes_only df df' changed\<close>: the table \<open>df'\<close> has as many rows as \<open>df\<close>, has every column of
  \<open>df\<close>, and outside the names in \<open>changed\<close> its columns are those of \<open>df\<close> with the same
  cells: \<open>df'\<close> is \<open>df\<close> with columns of \<open>changed\<close> added or replaced.
\<close>

definition changes_only :: "dataframe \<Rightarrow> dataframe \<Rightarrow> string set \<Rightarrow> bool" where
  "changes_only df df' changed \<longleftrightarrow>
     length (rows df') = length (rows df)
     \<and> set (columns df) \<subseteq> set (columns df')
     \<and> (\<forall>c. c \<notin> changed \<longrightarrow> getitem df' c = getitem df c)"

section \<open>Properties\<close>

subsection \<open>Accuracy scoring\<close>

lemma count_collisions_in_range:
  assumes "\<forall>i \<in> set is. i < length answers \<and> i < length predictions"
  shows "count_collisions predictions answers is c =
           Inr (c + length (filter (\<lambda>i. answers ! i = predictions ! i) is))"
  using assms by (induction "is" arbitrary: c) (simp_all add: subscript_def)

lemma get_true_pred_perc_long_enough:
  assumes "length answers \<le> length predictions"
  shows "get_true_pred_perc predictions answers =
           (if answers = [] then Inl ZeroDivisionError
            else Inr (real (matching_positions predictions answers) * 100
                        / real (length answers)))"
proof -
  have "\<forall>i \<in> set [0..<length answers]. i < length answers \<and> i < length predictions"
    using assms by auto
  then have "count_collisions predictions answers [0..<length answers] 0 =
      Inr (0 + matching_positions predictions answers)"
    unfolding matching_positions_def by (rule count_collisions_in_range)
  then show ?thesis
    by (simp add: get_true_pred_perc_def)
qed

lemma matching_positions_take:
  assumes "length answers \<le> length p1" "length answers \<le> length p2"
    and "take (length answers) p1 = take (length answers) p2"
  shows "matching_positions p1 answers = matching_positions p2 answers"
proof -
  have "p1 ! i = p2 ! i" if "i < length answers" for i
  proof -
    have "p1 ! i = take (length answers) p1 ! i" using that by simp
    also have "\<dots> = take (length answers) p2 ! i" using assms(3) by simp
    also have "\<dots> = p2 ! i" using that by simp
    finally show ?thesis .
  qed
  then have "filter (\<lambda>i. answers ! i = p1 ! i) [0..<length answers] =
             filter (\<lambda>i. answers ! i = p2 ! i) [0..<length answers]"
    by (intro filter_cong) auto
  then show ?thesis by (simp add: matching_positions_def)
qed

text \<open>
  Claim C4. On two sequences of the same length the score is
  \<open>100 * (number of agreeing positions) / length\<close> when they are non-empty, and the call
  fails with a division by zero when they are empty. Predictions \<open>[1,0,1,1]\<close> against
  answers \<open>[1,1,1,0]\<close> score \<open>50\<close>.
\<close>

theorem get_true_pred_perc_correct:
  "(length predictions = length answers \<longrightarrow>
      get_true_pred_perc predictions answers =
        (if answers = [] then Inl ZeroDivisionError
         else Inr (100 * real (matching_positions predictions answers)
                     / real (length answers))))
   \<and> get_true_pred_perc [1, 0, 1, 1 :: int] [1, 1, 1, 0] = Inr 50"
proof
  show "length predictions = length answers \<longrightarrow>
      get_true_pred_perc predictions answers =
        (if answers = [] then Inl ZeroDivisionError
         else Inr (100 * real (matching_positions predictions answers)
                     / real (length answers)))"
    by (simp add: get_true_pred_perc_long_enough mult.commute)
  show "get_true_pred_perc [1, 0, 1, 1 :: int] [1, 1, 1, 0] = Inr 50"
    by (simp add: get_true_pred_perc_def subscript_def upt_rec)
qed

theorem get_true_pred_perc_correct_witness:
  "length [True, False, True] = length [True, True, True]
   \<and> matching_positions [True, False, True] [True, True, True] = 2
   \<and> get_true_pred_perc [True, False, True] [True, True, True] = Inr (200 / 3)
   \<and> get_true_pred_perc ([] :: bool list) [] = Inl ZeroDivisionError"
proof -
  have m: "matching_positions [True, False, True] [True, True, True] = 2"
    by (simp add: matching_positions_def upt_rec)
  show ?thesis
    using get_true_pred_perc_correct [of "[True, False, True]" "[True, True, True]"]
      get_true_pred_perc_correct [of "[] :: bool list" "[]"] m
    by simp
qed

text \<open>
  Claim C9. The score reads only the first \<open>len(answers)\<close> predictions: two prediction
  sequences, each at least as long as a non-empty \<open>answers\<close>, that agree on these
  positions get the same score, and the call returns a score (no failure) however many
  predictions follow.
\<close>

theorem get_true_pred_perc_ignores_extra_predictions:
  assumes "answers \<noteq> []"
    and "length answers \<le> length p1" and "length answers \<le> length p2"
    and "take (length answers) p1 = take (length answers) p2"
  shows "get_true_pred_perc p1 answers = get_true_pred_perc p2 answers
         \<and> (\<exists>score. get_true_pred_perc p1 answers = Inr score)"
  using assms
  by (simp add: get_true_pred_perc_long_enough matching_positions_take [of answers p1 p2])

theorem get_true_pred_perc_ignores_extra_predictions_witness:
  "[1, 1 :: int] \<noteq> []
   \<and> length [1, 1 :: int] \<le> length [1, 0, 7 :: int]
   \<and> length [1, 1 :: int] \<le> length [1, 0, 3, 4, 5 :: int]
   \<and> take (length [1, 1 :: int]) [1, 0, 7 :: int] = take (length [1, 1 :: int]) [1, 0, 3, 4, 5 :: int]
   \<and> get_true_pred_perc [1, 0, 7] [1, 1 :: int] = get_true_pred_perc [1, 0, 3, 4, 5] [1, 1 :: int]
   \<and> get_true_pred_perc [1, 0, 7] [1, 1 :: int] = Inr 50"
proof -
  have v: "get_true_pred_perc [1, 0, 7] [1, 1 :: int] = Inr 50"
    by (simp add: get_true_pred_perc_def subscript_def upt_rec)
  show ?thesis
    using get_true_pred_perc_ignores_extra_predictions
      [of "[1, 1 :: int]" "[1, 0, 7]" "[1, 0, 3, 4, 5]"] v
    by simp
qed

subsection \<open>Tables: columns read and written\<close>

lemma index_of_Some: "index_of xs c = Some j \<Longrightarrow> j < length xs \<and> xs ! j = c"
  by (induction xs arbitrary: j) (auto split: if_splits)

lemma index_of_None: "index_of xs c = None \<longleftrightarrow> c \<notin> set xs"
  by (induction xs) auto

lemma index_of_other:
  "index_of xs c = Some j \<Longrightarrow> index_of xs c' = Some j' \<Longrightarrow> c \<noteq> c' \<Longrightarrow> j \<noteq> j'"
  by (auto dest!: index_of_Some)

lemma index_of_append:
  "index_of (xs @ ys) c =
     (case index_of xs c of Some j \<Rightarrow> Some j
      | None \<Rightarrow> map_option (\<lambda>j. length xs + j) (index_of ys c))"
  by (induction xs) (cases "index_of ys c"; auto split: option.splits)+

lemma traverse_Inr:
  "traverse f xs = Inr ys \<longleftrightarrow> length ys = length xs \<and> (\<forall>i < length xs. f (xs ! i) = Inr (ys ! i))"
proof (induction xs arbitrary: ys)
  case Nil
  then show ?case by auto
next
  case (Cons x xs)
  show ?case
  proof (cases ys)
    case Nil
    then show ?thesis by (auto split: sum.splits)
  next
    case (Cons y ys')
    then show ?thesis using Cons.IH [of ys']
      by (auto split: sum.splits simp: nth_Cons split: nat.splits)
  qed
qed

lemma traverse_map: "(\<And>x. x \<in> set xs \<Longrightarrow> f x = Inr (g x)) \<Longrightarrow> traverse f xs = Inr (map g xs)"
  by (induction xs) auto

lemma traverse_Inl: "traverse f xs = Inl e \<Longrightarrow> \<exists>x \<in> set xs. f x = Inl e"
  by (induction xs) (auto split: sum.splits)

lemma traverse_fails: "x \<in> set xs \<Longrightarrow> f x = Inl e \<Longrightarrow> \<exists>e'. traverse f xs = Inl e'"
  by (induction xs) (auto split: sum.splits)

lemma getitem_length: "getitem df c = Inr vs \<Longrightarrow> length vs = length (rows df)"
  by (auto simp: getitem_def split: option.splits)

lemma getitem_Inr_iff: "(\<exists>vs. getitem df c = Inr vs) \<longleftrightarrow> c \<in> set (columns df)"
  using index_of_None [of "columns df" c] by (auto simp: getitem_def split: option.splits)

lemma map2_update_nth:
  "length vs = length rs \<Longrightarrow> \<forall>r \<in> set rs. j < length r \<Longrightarrow>
     map (\<lambda>r. r ! j) (map2 (\<lambda>r v. r[j := v]) rs vs) = vs"
  by (induction rs vs rule: list_induct2') auto

lemma map2_update_other:
  "length vs = length rs \<Longrightarrow> j \<noteq> k \<Longrightarrow>
     map (\<lambda>r. r ! k) (map2 (\<lambda>r v. r[j := v]) rs vs) = map (\<lambda>r. r ! k) rs"
  by (induction rs vs rule: list_induct2') auto

lemma map2_snoc_last:
  "length vs = length rs \<Longrightarrow> \<forall>r \<in> set rs. length r = n \<Longrightarrow>
     map (\<lambda>r. r ! n) (map2 (\<lambda>r v. r @ [v]) rs vs) = vs"
  by (induction rs vs rule: list_induct2') auto

lemma map2_snoc_other:
  "length vs = length rs \<Longrightarrow> \<forall>r \<in> set rs. k < length r \<Longrightarrow>
     map (\<lambda>r. r ! k) (map2 (\<lambda>r v. r @ [v]) rs vs) = map (\<lambda>r. r ! k) rs"
  by (induction rs vs rule: list_induct2') (auto simp: nth_append)

lemma setitem_ok:
  assumes "well_formed df" "length vs = length (rows df)"
  shows "\<exists>df'. setitem df c vs = Inr df' \<and> well_formed df'
           \<and> columns df' = (if c \<in> set (columns df) then columns df else columns df @ [c])
           \<and> length (rows df') = length (rows df)
           \<and> getitem df' c = Inr vs
           \<and> (\<forall>c'. c' \<noteq> c \<longrightarrow> getitem df' c' = getitem df c')"
proof (cases "index_of (columns df) c")
  case None
  then have notin: "c \<notin> set (columns df)" by (simp add: index_of_None)
  let ?df' = "df\<lparr>columns := columns df @ [c], rows := map2 (\<lambda>r v. r @ [v]) (rows df) vs\<rparr>"
  have len: "\<forall>r \<in> set (rows df). length r = length (columns df)"
    using assms(1) by (simp add: well_formed_def list_all_iff)
  have 1: "setitem df c vs = Inr ?df'" using None assms(2) by (simp add: setitem_def)
  have 2: "well_formed ?df'" using assms notin len
    by (auto simp: well_formed_def list_all_iff set_zip)
  have 3: "getitem ?df' c = Inr vs"
    using None notin map2_snoc_last [OF assms(2) len]
    by (simp add: getitem_def index_of_append)
  have 4: "getitem ?df' c' = getitem df c'" if "c' \<noteq> c" for c'
  proof (cases "index_of (columns df) c'")
    case None
    then show ?thesis using that by (simp add: getitem_def index_of_append)
  next
    case (Some k)
    then have "k < length (columns df)" by (auto dest: index_of_Some)
    then have "\<forall>r \<in> set (rows df). k < length r" using len by simp
    from map2_snoc_other [OF assms(2) this] Some show ?thesis
      by (simp add: getitem_def index_of_append)
  qed
  show ?thesis using 1 2 3 4 notin assms(2) by simp
next
  case (Some j)
  then have isin: "c \<in> set (columns df)" and j: "j < length (columns df)"
    using index_of_None [of "columns df" c] by (auto dest: index_of_Some)
  let ?df' = "df\<lparr>rows := map2 (\<lambda>r v. r[j := v]) (rows df) vs\<rparr>"
  have len: "\<forall>r \<in> set (rows df). length r = length (columns df)"
    using assms(1) by (simp add: well_formed_def list_all_iff)
  have 1: "setitem df c vs = Inr ?df'" using Some assms(2) by (simp add: setitem_def)
  have 2: "well_formed ?df'" using assms len
    by (auto simp: well_formed_def list_all_iff set_zip)
  have "\<forall>r \<in> set (rows df). j < length r" using len j by simp
  from map2_update_nth [OF assms(2) this]
  have 3: "getitem ?df' c = Inr vs"
    using Some by (simp add: getitem_def)
  have 4: "getitem ?df' c' = getitem df c'" if "c' \<noteq> c" for c'
  proof (cases "index_of (columns df) c'")
    case None
    then show ?thesis by (simp add: getitem_def)
  next
    case (Some k)
    with \<open>index_of (columns df) c = Some j\<close> that have "j \<noteq> k"
      by (auto dest!: index_of_Some)
    from map2_update_other [OF assms(2) this] Some show ?thesis
      by (simp add: getitem_def)
  qed
  show ?thesis using 1 2 3 4 isin assms(2) by simp
qed

subsection \<open>Seasons\<close>

lemma season_mapper_int:
  "season_mapper (Num (of_int m)) =
     (if m = 12 \<or> m = 1 \<or> m = 2 then Some (Num 1)
      else if m = 3 \<or> m = 4 \<or> m = 5 then Some (Num 2)
      else if m = 6 \<or> m = 7 \<or> m = 8 then Some (Num 3)
      else if m = 9 \<or> m = 10 \<or> m = 11 then Some (Num 4)
      else None)"
  by (simp add: season_mapper_def)

lemma make_seasons_col_ok:
  assumes "well_formed df" and "getitem df column = Inr months"
  shows "\<exists>df'. make_seasons_col df column = Inr df'
           \<and> well_formed df'
           \<and> columns df' = (if ''Season'' \<in> set (columns df) then columns df
                             else columns df @ [''Season''])
           \<and> length (rows df') = length (rows df)
           \<and> getitem df' ''Season'' = Inr (series_map season_mapper months)
           \<and> (\<forall>c'. c' \<noteq> ''Season'' \<longrightarrow> getitem df' c' = getitem df c')"
proof -
  have len: "length months = length (rows df)" using assms(2) by (rule getitem_length)
  from setitem_ok [OF assms(1) len, of "''Season''"] obtain df1 where
    df1: "setitem df ''Season'' months = Inr df1" "well_formed df1"
      "columns df1 = (if ''Season'' \<in> set (columns df) then columns df
                      else columns df @ [''Season''])"
      "length (rows df1) = length (rows df)"
      "getitem df1 ''Season'' = Inr months"
      "\<forall>c'. c' \<noteq> ''Season'' \<longrightarrow> getitem df1 c' = getitem df c'"
    by blast
  have len1: "length (series_map season_mapper months) = length (rows df1)"
    using len df1(4) by (simp add: series_map_def)
  from setitem_ok [OF df1(2) len1, of "''Season''"] obtain df2 where
    df2: "setitem df1 ''Season'' (series_map season_mapper months) = Inr df2" "well_formed df2"
      "columns df2 = (if ''Season'' \<in> set (columns df1) then columns df1
                      else columns df1 @ [''Season''])"
      "length (rows df2) = length (rows df1)"
      "getitem df2 ''Season'' = Inr (series_map season_mapper months)"
      "\<forall>c'. c' \<noteq> ''Season'' \<longrightarrow> getitem df2 c' = getitem df1 c'"
    by blast
  have "make_seasons_col df column = Inr df2"
    using assms(2) df1(1,5) df2(1) by (simp add: make_seasons_col_def)
  moreover have "columns df2 = (if ''Season'' \<in> set (columns df) then columns df
                             else columns df @ [''Season''])"
    using df1(3) df2(3) by simp
  ultimately show ?thesis using df2 df1 by simp
qed

text \<open>
  Claim C1. On a table that has the month column, \<open>make_seasons_col\<close> returns a table whose
  \<open>Season\<close> column holds, row by row, the season of the month: months 12, 1, 2 give 1;
  3, 4, 5 give 2; 6, 7, 8 give 3; 9, 10, 11 give 4; every other integer gives the missing
  value \<open>NaN\<close>. In particular months 1, 6, 9 give seasons 1, 3, 4.
\<close>

theorem make_seasons_col_table:
  "(well_formed df \<and> getitem df column = Inr months \<longrightarrow>
      (\<exists>df' season. make_seasons_col df column = Inr df'
         \<and> getitem df' ''Season'' = Inr season
         \<and> length season = length months
         \<and> (\<forall>i < length months. \<forall>m :: int. months ! i = Num (of_int m) \<longrightarrow>
               season ! i =
                 (if m = 12 \<or> m = 1 \<or> m = 2 then Num 1
                  else if m = 3 \<or> m = 4 \<or> m = 5 then Num 2
                  else if m = 6 \<or> m = 7 \<or> m = 8 then Num 3
                  else if m = 9 \<or> m = 10 \<or> m = 11 then Num 4
                  else NaN))))
   \<and> series_map season_mapper [Num 1, Num 6, Num 9] = [Num 1, Num 3, Num 4]"
proof (intro conjI impI)
  assume a: "well_formed df \<and> getitem df column = Inr months"
  then obtain df' where df': "make_seasons_col df column = Inr df'"
      "getitem df' ''Season'' = Inr (series_map season_mapper months)"
    using make_seasons_col_ok [of df column months] by blast
  have "series_map season_mapper months ! i =
                 (if m = 12 \<or> m = 1 \<or> m = 2 then Num 1
                  else if m = 3 \<or> m = 4 \<or> m = 5 then Num 2
                  else if m = 6 \<or> m = 7 \<or> m = 8 then Num 3
                  else if m = 9 \<or> m = 10 \<or> m = 11 then Num 4
                  else NaN)"
    if "i < length months" "months ! i = Num (of_int m)" for i and m :: int
    using that by (simp add: series_map_def season_mapper_int)
  then show "\<exists>df' season. make_seasons_col df column = Inr df'
         \<and> getitem df' ''Season'' = Inr season
         \<and> length season = length months
         \<and> (\<forall>i < length months. \<forall>m :: int. months ! i = Num (of_int m) \<longrightarrow>
               season ! i =
                 (if m = 12 \<or> m = 1 \<or> m = 2 then Num 1
                  else if m = 3 \<or> m = 4 \<or> m = 5 then Num 2
                  else if m = 6 \<or> m = 7 \<or> m = 8 then Num 3
                  else if m = 9 \<or> m = 10 \<or> m = 11 then Num 4
                  else NaN))"
    using df' by (intro exI [of _ df'] exI [of _ "series_map season_mapper months"])
      (simp add: series_map_def)
next
  show "series_map season_mapper [Num 1, Num 6, Num 9] = [Num 1, Num 3, Num 4]"
    by (simp add: series_map_def season_mapper_def)
qed

theorem make_seasons_col_table_witness:
  "well_formed \<lparr>columns = [''Month''], rows = [[Num 1], [Num 6], [Num 13]]\<rparr>
   \<and> getitem \<lparr>columns = [''Month''], rows = [[Num 1], [Num 6], [Num 13]]\<rparr> ''Month''
       = Inr [Num 1, Num 6, Num 13]
   \<and> make_seasons_col \<lparr>columns = [''Month''], rows = [[Num 1], [Num 6], [Num 13]]\<rparr> ''Month''
       = Inr \<lparr>columns = [''Month'', ''Season''],
              rows = [[Num 1, Num 1], [Num 6, Num 3], [Num 13, NaN]]\<rparr>"
proof -
  let ?df = "\<lparr>columns = [''Month''], rows = [[Num 1], [Num 6], [Num 13]]\<rparr>"
  have w: "well_formed ?df" by (simp add: well_formed_def)
  have g: "getitem ?df ''Month'' = Inr [Num 1, Num 6, Num 13]" by (simp add: getitem_def)
  have r: "make_seasons_col ?df ''Month''
       = Inr \<lparr>columns = [''Month'', ''Season''],
              rows = [[Num 1, Num 1], [Num 6, Num 3], [Num 13, NaN]]\<rparr>"
    by (simp add: make_seasons_col_def getitem_def setitem_def series_map_def season_mapper_def)
  show ?thesis
    using make_seasons_col_table [of ?df "''Month''" "[Num 1, Num 6, Num 13]"] w g r
    by simp
qed

subsection \<open>Outlier filter and missing-value rows\<close>

lemma select_rows_map: "select_rows df (map P (rows df)) = df\<lparr>rows := filter P (rows df)\<rparr>"
proof -
  have "map fst (filter snd (zip xs (map P xs))) = filter P xs" for xs :: "cell list list"
    by (induction xs) auto
  then show ?thesis by (simp add: select_rows_def)
qed

lemma subseq_select: "subseq (map fst (filter snd (zip xs bs))) xs"
proof (induction xs arbitrary: bs)
  case Nil
  then show ?case by simp
next
  case (Cons x xs)
  then show ?case by (cases bs) auto
qed

lemma lt_threshold_numeric:
  "numeric c \<Longrightarrow> lt_threshold t c = Inr (case c of Num x \<Rightarrow> x < t | _ \<Rightarrow> False)"
  by (cases c) (simp_all add: numeric_def)

lemma gt_threshold_numeric:
  "numeric c \<Longrightarrow> gt_threshold t c = Inr (case c of Num x \<Rightarrow> t < x | _ \<Rightarrow> False)"
  by (cases c) (simp_all add: numeric_def)

lemma get_outlier_removed_col_numeric:
  assumes "index_of (columns df) column = Some j"
    and "list_all (\<lambda>r. numeric (r ! j)) (rows df)"
  shows "get_outlier_removed_col df column up_threshold low_threshold =
     Inr (df\<lparr>rows := filter (\<lambda>r. case r ! j of
                                  Num x \<Rightarrow> low_threshold < x \<and> x < up_threshold
                                | _ \<Rightarrow> False) (rows df)\<rparr>)"
proof -
  let ?series = "map (\<lambda>r. r ! j) (rows df)"
  have g: "getitem df column = Inr ?series" using assms(1) by (simp add: getitem_def)
  have num: "\<And>c. c \<in> set ?series \<Longrightarrow> numeric c"
    using assms(2) by (auto simp: list_all_iff)
  have lt: "traverse (lt_threshold up_threshold) ?series =
      Inr (map (\<lambda>c. case c of Num x \<Rightarrow> x < up_threshold | _ \<Rightarrow> False) ?series)"
    by (rule traverse_map) (simp add: lt_threshold_numeric num)
  have gt: "traverse (gt_threshold low_threshold) ?series =
      Inr (map (\<lambda>c. case c of Num x \<Rightarrow> low_threshold < x | _ \<Rightarrow> False) ?series)"
    by (rule traverse_map) (simp add: gt_threshold_numeric num)
  have m: "map2 (\<and>) (map (\<lambda>c. case c of Num x \<Rightarrow> x < up_threshold | _ \<Rightarrow> False) ?series)
                   (map (\<lambda>c. case c of Num x \<Rightarrow> low_threshold < x | _ \<Rightarrow> False) ?series)
           = map (\<lambda>r. case r ! j of Num x \<Rightarrow> low_threshold < x \<and> x < up_threshold
                                | _ \<Rightarrow> False) (rows df)"
  proof -
    have "map2 (\<and>) (map f xs) (map g xs) = map (\<lambda>x. f x \<and> g x) xs"
      for f g :: "cell list \<Rightarrow> bool" and xs
      by (induction xs) auto
    then show ?thesis
      by (auto simp: comp_def split: cell.splits)
  qed
  show ?thesis
    unfolding get_outlier_removed_col_def g lt gt sum.case m
    by (simp add: select_rows_map)
qed


lemma traverse_lt_threshold_fails:
  "\<not> list_all numeric series \<Longrightarrow> traverse (lt_threshold t) series = Inl TypeError"
proof (induction series)
  case Nil
  then show ?case by simp
next
  case (Cons c series)
  then show ?case by (cases c) (auto simp: numeric_def split: sum.splits)
qed

lemma get_outlier_removed_col_not_numeric:
  assumes "index_of (columns df) column = Some j"
    and "\<not> list_all (\<lambda>r. numeric (r ! j)) (rows df)"
  shows "get_outlier_removed_col df column up_threshold low_threshold = Inl TypeError"
proof -
  have "\<not> list_all numeric (map (\<lambda>r. r ! j) (rows df))"
    using assms(2) by (simp add: list_all_iff)
  then show ?thesis
    using assms(1) by (simp add: get_outlier_removed_col_def getitem_def traverse_lt_threshold_fails)
qed

text \<open>
  Claim C3. For a column of the table, the outlier filter returns exactly the rows whose
  value in that column lies strictly between the low and the high threshold, in their
  order; a row whose value equals a threshold (or is missing) is left out. On a column
  that holds a non-numeric cell the comparison raises. With low 0 and high 10 the values
  \<open>[-1, 0, 5, 10, 11]\<close> leave the single row with value 5.
\<close>

theorem get_outlier_removed_col_strictly_between:
  "(index_of (columns df) column = Some j \<longrightarrow>
      get_outlier_removed_col df column high low =
        (if list_all (\<lambda>r. numeric (r ! j)) (rows df)
         then Inr (df\<lparr>rows := filter (\<lambda>r. case r ! j of Num x \<Rightarrow> low < x \<and> x < high
                                               | _ \<Rightarrow> False) (rows df)\<rparr>)
         else Inl TypeError))
   \<and> get_outlier_removed_col
         \<lparr>columns = [''value''], rows = [[Num (- 1)], [Num 0], [Num 5], [Num 10], [Num 11]]\<rparr>
         ''value'' 10 0
       = Inr \<lparr>columns = [''value''], rows = [[Num 5]]\<rparr>"
proof (intro conjI impI)
  assume "index_of (columns df) column = Some j"
  then show "get_outlier_removed_col df column high low =
        (if list_all (\<lambda>r. numeric (r ! j)) (rows df)
         then Inr (df\<lparr>rows := filter (\<lambda>r. case r ! j of Num x \<Rightarrow> low < x \<and> x < high
                                               | _ \<Rightarrow> False) (rows df)\<rparr>)
         else Inl TypeError)"
    by (simp add: get_outlier_removed_col_numeric get_outlier_removed_col_not_numeric)
next
  show "get_outlier_removed_col
         \<lparr>columns = [''value''], rows = [[Num (- 1)], [Num 0], [Num 5], [Num 10], [Num 11]]\<rparr>
         ''value'' 10 0
       = Inr \<lparr>columns = [''value''], rows = [[Num 5]]\<rparr>"
    by (simp add: get_outlier_removed_col_def getitem_def select_rows_def)
qed

theorem get_outlier_removed_col_strictly_between_witness:
  "index_of (columns \<lparr>columns = [''id'', ''x''],
                       rows = [[Num 1, Num 3], [Num 2, Num 7], [Num 3, NaN], [Num 4, Num 4]]\<rparr>) ''x''
     = Some 1
   \<and> get_outlier_removed_col
         \<lparr>columns = [''id'', ''x''],
          rows = [[Num 1, Num 3], [Num 2, Num 7], [Num 3, NaN], [Num 4, Num 4]]\<rparr> ''x'' 7 3
       = Inr \<lparr>columns = [''id'', ''x''], rows = [[Num 4, Num 4]]\<rparr>
   \<and> index_of (columns \<lparr>columns = [''x''], rows = [[StrV ''a'']]\<rparr>) ''x'' = Some 0
   \<and> get_outlier_removed_col \<lparr>columns = [''x''], rows = [[StrV ''a'']]\<rparr> ''x'' 7 3
       = Inl TypeError"
  using get_outlier_removed_col_strictly_between
    [of "\<lparr>columns = [''id'', ''x''],
          rows = [[Num 1, Num 3], [Num 2, Num 7], [Num 3, NaN], [Num 4, Num 4]]\<rparr>" "''x''" 1 7 3]
    get_outlier_removed_col_strictly_between
    [of "\<lparr>columns = [''x''], rows = [[StrV ''a'']]\<rparr>" "''x''" 0 7 3]
  by (simp add: numeric_def)

lemma get_outlier_removed_col_selects:
  "get_outlier_removed_col df column up_threshold low_threshold = Inr df'
     \<Longrightarrow> \<exists>flags. df' = select_rows df flags"
  by (auto simp: get_outlier_removed_col_def split: sum.splits)

text \<open>
  Claim C10. The outlier filter and the missing-value selection return a subsequence of
  the input table: the columns are the input's, and the rows of the result are rows of
  the input, cell for cell, in their original relative order.
\<close>

theorem filters_return_subsequence:
  "(get_outlier_removed_col df column up_threshold low_threshold = Inr df' \<longrightarrow>
      columns df' = columns df \<and> subseq (rows df') (rows df))
   \<and> columns (get_nan_records df) = columns df
   \<and> subseq (rows (get_nan_records df)) (rows df)"
proof (intro conjI impI)
  assume "get_outlier_removed_col df column up_threshold low_threshold = Inr df'"
  then obtain flags where "df' = select_rows df flags"
    using get_outlier_removed_col_selects by blast
  then show "columns df' = columns df" "subseq (rows df') (rows df)"
    by (simp_all add: select_rows_def subseq_select)
next
  show "columns (get_nan_records df) = columns df"
    by (simp add: get_nan_records_def select_rows_def)
  show "subseq (rows (get_nan_records df)) (rows df)"
    by (simp add: get_nan_records_def select_rows_def subseq_select)
qed

theorem filters_return_subsequence_witness:
  "get_outlier_removed_col
       \<lparr>columns = [''id'', ''x''], rows = [[Num 1, Num 5], [NaN, Num 9], [Num 3, Num 6]]\<rparr>
       ''x'' 8 0
     = Inr \<lparr>columns = [''id'', ''x''], rows = [[Num 1, Num 5], [Num 3, Num 6]]\<rparr>
   \<and> subseq [[Num 1, Num 5], [Num 3, Num 6]] [[Num 1, Num 5], [NaN, Num 9], [Num 3, Num 6]]
   \<and> get_nan_records
       \<lparr>columns = [''id'', ''x''], rows = [[Num 1, Num 5], [NaN, Num 9], [Num 3, Num 6]]\<rparr>
     = \<lparr>columns = [''id'', ''x''], rows = [[NaN, Num 9]]\<rparr>"
proof -
  let ?df = "\<lparr>columns = [''id'', ''x''], rows = [[Num 1, Num 5], [NaN, Num 9], [Num 3, Num 6]]\<rparr>"
  let ?df' = "\<lparr>columns = [''id'', ''x''], rows = [[Num 1, Num 5], [Num 3, Num 6]]\<rparr>"
  have r: "get_outlier_removed_col ?df ''x'' 8 0 = Inr ?df'"
    by (simp add: get_outlier_removed_col_def getitem_def select_rows_def)
  have n: "get_nan_records ?df = \<lparr>columns = [''id'', ''x''], rows = [[NaN, Num 9]]\<rparr>"
    by (simp add: get_nan_records_def select_rows_def isnull_def)
  show ?thesis
    using filters_return_subsequence [of ?df "''x''" 8 0 ?df'] r n by simp
qed

subsection \<open>Weekday numbers\<close>

lemma dom_week_day_mapper:
  "dom week_day_mapper =
     StrV ` {''Monday'', ''Tuesday'', ''Wednesday'', ''Thursday'', ''Friday'', ''Saturday'',
             ''Sunday''}"
  by (simp add: week_day_mapper_def dom_map_of_conv_image_fst)

lemma week_day_mapper_values:
  "map week_day_mapper
       (map StrV [''Monday'', ''Tuesday'', ''Wednesday'', ''Thursday'', ''Friday'', ''Saturday'',
                  ''Sunday''])
     = map (\<lambda>n. Some (Num n)) [0, 1, 2, 3, 4, 5, 6]"
  by (simp add: week_day_mapper_def)

lemma week_day_mapper_bij:
  "bij_betw (\<lambda>c. the (week_day_mapper c)) (dom week_day_mapper) (Num ` {0, 1, 2, 3, 4, 5, 6})"
  unfolding bij_betw_def dom_week_day_mapper
  by (simp add: week_day_mapper_def)

lemma astype_int64_mapped:
  assumes "c \<in> dom week_day_mapper"
  shows "astype_int64 (case week_day_mapper c of Some v \<Rightarrow> v | None \<Rightarrow> NaN) =
           Inr (case week_day_mapper c of Some v \<Rightarrow> v | None \<Rightarrow> NaN)"
  using assms unfolding dom_week_day_mapper
  by (auto simp: week_day_mapper_def)

lemma astype_int64_error: "astype_int64 c = Inl e \<Longrightarrow> e = ValueError"
  by (cases c) auto

lemma make_weekday_to_num_unmapped:
  assumes "getitem df column = Inr series" and "\<not> set series \<subseteq> dom week_day_mapper"
  shows "make_weekday_to_num df column = Inl ValueError"
proof -
  from assms(2) obtain c where c: "c \<in> set series" "week_day_mapper c = None" by auto
  then have "NaN \<in> set (series_map week_day_mapper series)"
    by (force simp: series_map_def)
  then obtain e where e: "traverse astype_int64 (series_map week_day_mapper series) = Inl e"
    using traverse_fails [of NaN _ astype_int64 ValueError] by auto
  then have "e = ValueError"
    using traverse_Inl [OF e] astype_int64_error by blast
  with e assms(1) show ?thesis by (simp add: make_weekday_to_num_def)
qed

lemma make_weekday_to_num_mapped:
  assumes "well_formed df" and "getitem df column = Inr series"
    and "set series \<subseteq> dom week_day_mapper"
  shows "\<exists>df'. make_weekday_to_num df column = Inr df'
           \<and> well_formed df'
           \<and> columns df' = (if ''weekdayNumerical'' \<in> set (columns df) then columns df
                             else columns df @ [''weekdayNumerical''])
           \<and> length (rows df') = length (rows df)
           \<and> getitem df' ''weekdayNumerical'' = Inr (series_map week_day_mapper series)
           \<and> (\<forall>c'. c' \<noteq> ''weekdayNumerical'' \<longrightarrow> getitem df' c' = getitem df c')"
proof -
  have "astype_int64 x = Inr x" if "x \<in> set (series_map week_day_mapper series)" for x
  proof -
    from that obtain c where c: "c \<in> set series"
        "x = (case week_day_mapper c of Some v \<Rightarrow> v | None \<Rightarrow> NaN)"
      by (auto simp: series_map_def)
    then have "c \<in> dom week_day_mapper" using assms(3) by blast
    then show ?thesis unfolding c(2) by (rule astype_int64_mapped)
  qed
  then have "traverse astype_int64 (series_map week_day_mapper series) =
          Inr (map (\<lambda>c. c) (series_map week_day_mapper series))"
    by (intro traverse_map)
  then have t: "traverse astype_int64 (series_map week_day_mapper series) =
          Inr (series_map week_day_mapper series)" by simp
  have len: "length (series_map week_day_mapper series) = length (rows df)"
    using getitem_length [OF assms(2)] by (simp add: series_map_def)
  from setitem_ok [OF assms(1) len, of "''weekdayNumerical''"] show ?thesis
    using assms(2) t by (simp add: make_weekday_to_num_def)
qed

text \<open>
  Claim C5. The dictionary sends the seven weekday names, Monday to Sunday, to 0 .. 6 in
  calendar order, one to one; these names are its only keys. On a table whose weekday
  column holds any value outside this set the call raises (the value maps to \<open>NaN\<close>, which
  the cast to \<open>int64\<close> refuses), and on a table whose weekday column holds only these names
  it returns the table with the column \<open>weekdayNumerical\<close> of their numbers.
\<close>

theorem make_weekday_to_num_closed_set:
  "map week_day_mapper
       (map StrV [''Monday'', ''Tuesday'', ''Wednesday'', ''Thursday'', ''Friday'', ''Saturday'',
                  ''Sunday''])
     = map (\<lambda>n. Some (Num n)) [0, 1, 2, 3, 4, 5, 6]
   \<and> dom week_day_mapper =
       StrV ` {''Monday'', ''Tuesday'', ''Wednesday'', ''Thursday'', ''Friday'', ''Saturday'',
               ''Sunday''}
   \<and> bij_betw (\<lambda>c. the (week_day_mapper c)) (dom week_day_mapper)
        (Num ` {0, 1, 2, 3, 4, 5, 6})
   \<and> (getitem df column = Inr series \<and> \<not> set series \<subseteq> dom week_day_mapper \<longrightarrow>
        make_weekday_to_num df column = Inl ValueError)
   \<and> (well_formed df \<and> getitem df column = Inr series \<and> set series \<subseteq> dom week_day_mapper \<longrightarrow>
        (\<exists>df'. make_weekday_to_num df column = Inr df'
           \<and> length (rows df') = length (rows df)
           \<and> getitem df' ''weekdayNumerical'' = Inr (series_map week_day_mapper series)))"
  using week_day_mapper_values dom_week_day_mapper week_day_mapper_bij
    make_weekday_to_num_unmapped [of df column series]
    make_weekday_to_num_mapped [of df column series]
  by blast

theorem make_weekday_to_num_closed_set_witness:
  "getitem \<lparr>columns = [''DayOfWeek''], rows = [[StrV ''Monday''], [StrV ''Funday'']]\<rparr> ''DayOfWeek''
     = Inr [StrV ''Monday'', StrV ''Funday'']
   \<and> \<not> set [StrV ''Monday'', StrV ''Funday''] \<subseteq> dom week_day_mapper
   \<and> make_weekday_to_num
        \<lparr>columns = [''DayOfWeek''], rows = [[StrV ''Monday''], [StrV ''Funday'']]\<rparr> ''DayOfWeek''
     = Inl ValueError
   \<and> well_formed \<lparr>columns = [''DayOfWeek''], rows = [[StrV ''Sunday''], [StrV ''Tuesday'']]\<rparr>
   \<and> getitem \<lparr>columns = [''DayOfWeek''], rows = [[StrV ''Sunday''], [StrV ''Tuesday'']]\<rparr> ''DayOfWeek''
     = Inr [StrV ''Sunday'', StrV ''Tuesday'']
   \<and> set [StrV ''Sunday'', StrV ''Tuesday''] \<subseteq> dom week_day_mapper
   \<and> make_weekday_to_num
        \<lparr>columns = [''DayOfWeek''], rows = [[StrV ''Sunday''], [StrV ''Tuesday'']]\<rparr> ''DayOfWeek''
     = Inr \<lparr>columns = [''DayOfWeek'', ''weekdayNumerical''],
            rows = [[StrV ''Sunday'', Num 6], [StrV ''Tuesday'', Num 1]]\<rparr>"
proof -
  let ?bad = "\<lparr>columns = [''DayOfWeek''], rows = [[StrV ''Monday''], [StrV ''Funday'']]\<rparr>"
  let ?good = "\<lparr>columns = [''DayOfWeek''], rows = [[StrV ''Sunday''], [StrV ''Tuesday'']]\<rparr>"
  have g1: "getitem ?bad ''DayOfWeek'' = Inr [StrV ''Monday'', StrV ''Funday'']"
    by (simp add: getitem_def)
  have n1: "\<not> set [StrV ''Monday'', StrV ''Funday''] \<subseteq> dom week_day_mapper"
    by (simp add: week_day_mapper_def dom_map_of_conv_image_fst)
  have w2: "well_formed ?good" by (simp add: well_formed_def)
  have g2: "getitem ?good ''DayOfWeek'' = Inr [StrV ''Sunday'', StrV ''Tuesday'']"
    by (simp add: getitem_def)
  have s2: "set [StrV ''Sunday'', StrV ''Tuesday''] \<subseteq> dom week_day_mapper"
    by (simp add: week_day_mapper_def dom_map_of_conv_image_fst)
  have r2: "make_weekday_to_num ?good ''DayOfWeek''
     = Inr \<lparr>columns = [''DayOfWeek'', ''weekdayNumerical''],
            rows = [[StrV ''Sunday'', Num 6], [StrV ''Tuesday'', Num 1]]\<rparr>"
    by (simp add: make_weekday_to_num_def getitem_def setitem_def series_map_def
        week_day_mapper_def)
  show ?thesis
    using make_weekday_to_num_closed_set [of ?bad "''DayOfWeek''" "[StrV ''Monday'', StrV ''Funday'']"]
      make_weekday_to_num_closed_set [of ?good "''DayOfWeek''" "[StrV ''Sunday'', StrV ''Tuesday'']"]
      g1 n1 w2 g2 s2 r2
    by simp
qed

subsection \<open>Streets and intersections: the matcher against the language\<close>

inductive_cases matches_NilE: "matches [] m"
inductive_cases matches_OneE: "matches (One cls # its) m"
inductive_cases matches_PlusE: "matches (Plus cls # its) m"

lemma first_some_None: "first_some rs = None \<longleftrightarrow> (\<forall>r \<in> set rs. r = None)"
  by (induction rs rule: first_some.induct) auto

lemma list_all_take_takeWhile:
  "k \<le> length s \<Longrightarrow> list_all P (take k s) \<longleftrightarrow> k \<le> length (takeWhile P s)"
proof (induction s arbitrary: k)
  case Nil
  then show ?case by simp
next
  case (Cons x s)
  then show ?case by (cases k) auto
qed

lemma match_here_None_iff:
  "match_here its s = None \<longleftrightarrow> (\<forall>m rest. s = m @ rest \<longrightarrow> \<not> matches its m)"
proof (induction its arbitrary: s)
  case Nil
  show ?case using matches_Nil by auto
next
  case (Cons it its)
  show ?case
  proof (cases it)
    case (One cls)
    show ?thesis
    proof (cases s)
      case Nil
      then show ?thesis using One by (auto elim: matches_OneE)
    next
      case (Cons x xs)
      show ?thesis
      proof (cases "in_class cls x")
        case False
        then show ?thesis using One Cons by (auto elim!: matches_OneE)
      next
        case True
        have "(\<forall>m rest. x # xs = m @ rest \<longrightarrow> \<not> matches (One cls # its) m)
              \<longleftrightarrow> (\<forall>m rest. xs = m @ rest \<longrightarrow> \<not> matches its m)"
        proof
          assume a: "\<forall>m rest. x # xs = m @ rest \<longrightarrow> \<not> matches (One cls # its) m"
          show "\<forall>m rest. xs = m @ rest \<longrightarrow> \<not> matches its m"
          proof (intro allI impI)
            fix m rest assume "xs = m @ rest"
            then have "x # xs = (x # m) @ rest" by simp
            with a have "\<not> matches (One cls # its) (x # m)" by blast
            then show "\<not> matches its m" using True matches_One by blast
          qed
        next
          assume a: "\<forall>m rest. xs = m @ rest \<longrightarrow> \<not> matches its m"
          show "\<forall>m rest. x # xs = m @ rest \<longrightarrow> \<not> matches (One cls # its) m"
          proof (intro allI impI notI)
            fix m rest assume e: "x # xs = m @ rest" and m: "matches (One cls # its) m"
            from m obtain y ys where "m = y # ys" "matches its ys" by (auto elim: matches_OneE)
            with e have "xs = ys @ rest" by simp
            with a \<open>matches its ys\<close> show False by blast
          qed
        qed
        then show ?thesis using One Cons True Cons.IH [of xs] by simp
      qed
    qed
  next
    case (Plus cls)
    let ?n = "length (takeWhile (in_class cls) s)"
    have n_le: "?n \<le> length s" by (rule length_takeWhile_le)
    have "match_here (Plus cls # its) s = None
          \<longleftrightarrow> (\<forall>k. 1 \<le> k \<and> k \<le> ?n \<longrightarrow> match_here its (drop k s) = None)"
    proof -
      have "match_here (Plus cls # its) s = None
            \<longleftrightarrow> (\<forall>k \<in> set (rev [1..<Suc ?n]). match_here its (drop k s) = None)"
        by (simp add: first_some_None del: upt_Suc)
      also have "\<dots> \<longleftrightarrow> (\<forall>k. 1 \<le> k \<and> k \<le> ?n \<longrightarrow> match_here its (drop k s) = None)"
        by (simp del: upt_Suc add: Ball_def less_Suc_eq_le)
      finally show ?thesis .
    qed
    also have "\<dots> \<longleftrightarrow> (\<forall>m rest. s = m @ rest \<longrightarrow> \<not> matches (Plus cls # its) m)"
    proof
      assume a: "\<forall>k. 1 \<le> k \<and> k \<le> ?n \<longrightarrow> match_here its (drop k s) = None"
      show "\<forall>m rest. s = m @ rest \<longrightarrow> \<not> matches (Plus cls # its) m"
      proof (intro allI impI notI)
        fix m rest assume e: "s = m @ rest" and m: "matches (Plus cls # its) m"
        from m have "\<exists>run m'. m = run @ m' \<and> run \<noteq> []
            \<and> list_all (in_class cls) run \<and> matches its m'"
          by (rule matches_PlusE) blast
        then obtain run m' where r: "m = run @ m'" "run \<noteq> []"
            "list_all (in_class cls) run" "matches its m'"
          by blast
        let ?k = "length run"
        have s: "s = run @ m' @ rest" using e r(1) by simp
        have "?k \<le> length s" using s by simp
        moreover have "take ?k s = run" using s by simp
        ultimately have "?k \<le> ?n"
          using r(3) list_all_take_takeWhile [of ?k s "in_class cls"] by simp
        moreover have "1 \<le> ?k" using r(2) by (cases run) auto
        ultimately have "match_here its (drop ?k s) = None" using a by blast
        moreover have "drop ?k s = m' @ rest" using s by simp
        ultimately show False using Cons.IH [of "drop ?k s"] r(4) by blast
      qed
    next
      assume a: "\<forall>m rest. s = m @ rest \<longrightarrow> \<not> matches (Plus cls # its) m"
      show "\<forall>k. 1 \<le> k \<and> k \<le> ?n \<longrightarrow> match_here its (drop k s) = None"
      proof (intro allI impI)
        fix k assume k: "1 \<le> k \<and> k \<le> ?n"
        then have kl: "k \<le> length s" using n_le by simp
        have all: "list_all (in_class cls) (take k s)"
          using k kl list_all_take_takeWhile [of k s "in_class cls"] by simp
        have ne: "take k s \<noteq> []" using k kl by (cases s) auto
        show "match_here its (drop k s) = None"
        proof (rule ccontr)
          assume "match_here its (drop k s) \<noteq> None"
          then have "\<not> (\<forall>m rest. drop k s = m @ rest \<longrightarrow> \<not> matches its m)"
            using Cons.IH [of "drop k s"] by simp
          then obtain m' rest where d: "drop k s = m' @ rest" "matches its m'"
            by blast
          have "matches (Plus cls # its) (take k s @ m')"
            using ne all d(2) by (rule matches_Plus)
          moreover have "s = (take k s @ m') @ rest"
            using d(1) append_take_drop_id [of k s] by simp
          ultimately show False using a by blast
        qed
      qed
    qed
    finally show ?thesis using Plus by simp
  qed
qed

lemma match_group_None_iff:
  "match_group p s = None \<longleftrightarrow> match_here (fst p @ snd p) s = None"
  by (simp add: match_group_def split: option.splits)

lemma search_None_iff: "search p s = None \<longleftrightarrow> \<not> contains_match p s"
proof (induction s)
  case Nil
  show ?case
    by (simp add: match_group_None_iff match_here_None_iff contains_match_def)
next
  case (Cons x xs)
  have "contains_match p (x # xs) \<longleftrightarrow>
          (\<exists>m rest. x # xs = m @ rest \<and> matches (fst p @ snd p) m) \<or> contains_match p xs"
  proof
    assume "contains_match p (x # xs)"
    then obtain before m after where e: "x # xs = before @ m @ after"
        and m: "matches (fst p @ snd p) m"
      by (auto simp: contains_match_def)
    show "(\<exists>m rest. x # xs = m @ rest \<and> matches (fst p @ snd p) m) \<or> contains_match p xs"
    proof (cases before)
      case Nil
      then show ?thesis using e m by auto
    next
      case (Cons b bs)
      then have "xs = bs @ m @ after" using e by simp
      then show ?thesis using m by (auto simp: contains_match_def)
    qed
  next
    assume "(\<exists>m rest. x # xs = m @ rest \<and> matches (fst p @ snd p) m) \<or> contains_match p xs"
    then show "contains_match p (x # xs)"
    proof
      assume "\<exists>m rest. x # xs = m @ rest \<and> matches (fst p @ snd p) m"
      then obtain m rest where "x # xs = [] @ m @ rest" "matches (fst p @ snd p) m" by auto
      then show ?thesis unfolding contains_match_def by blast
    next
      assume "contains_match p xs"
      then obtain before m after where "xs = before @ m @ after" "matches (fst p @ snd p) m"
        by (auto simp: contains_match_def)
      then have "x # xs = (x # before) @ m @ after" by simp
      then show ?thesis using \<open>matches (fst p @ snd p) m\<close> unfolding contains_match_def by blast
    qed
  qed
  moreover have "match_group p (x # xs) = None \<longleftrightarrow>
      \<not> (\<exists>m rest. x # xs = m @ rest \<and> matches (fst p @ snd p) m)"
    unfolding match_group_None_iff match_here_None_iff by blast
  moreover have "search p (x # xs) = None \<longleftrightarrow>
      match_group p (x # xs) = None \<and> search p xs = None"
    by (simp split: option.splits)
  ultimately show ?case using Cons.IH by simp
qed


lemma first_some_Some: "first_some rs = Some r \<Longrightarrow> Some r \<in> set rs"
  by (induction rs rule: first_some.induct) auto

lemma matches_single_append:
  assumes "matches [it] a" and "matches its b"
  shows "matches (it # its) (a @ b)"
proof (cases it)
  case (One cls)
  with assms(1) obtain x where "a = [x]" "in_class cls x"
    by (auto elim!: matches_OneE matches_NilE)
  then show ?thesis using One assms(2) by (simp add: matches_One)
next
  case (Plus cls)
  with assms(1) have "\<exists>run. a = run \<and> run \<noteq> [] \<and> list_all (in_class cls) run"
    by (auto elim!: matches_PlusE matches_NilE)
  then show ?thesis using Plus assms(2) by (auto intro: matches_Plus)
qed

lemma match_here_Cons_Some:
  assumes "match_here (it # its) s = Some ls"
  shows "\<exists>k ls'. ls = k # ls' \<and> k \<le> length s \<and> match_here its (drop k s) = Some ls'
           \<and> matches [it] (take k s)"
proof (cases it)
  case (One cls)
  with assms obtain x xs ls' where x: "s = x # xs" "in_class cls x"
      "match_here its xs = Some ls'" "ls = 1 # ls'"
    by (auto split: list.splits if_splits)
  have "matches [One cls] [x]" using x(2) by (intro matches_One matches_Nil)
  then show ?thesis using One x by simp
next
  case (Plus cls)
  let ?n = "length (takeWhile (in_class cls) s)"
  from assms Plus have "Some ls \<in> set (map (\<lambda>k. map_option ((#) k) (match_here its (drop k s)))
          (rev [1..<Suc ?n]))"
    by (intro first_some_Some) simp
  then obtain k where k0: "Suc 0 \<le> k" "k < Suc ?n"
      "Some ls = map_option ((#) k) (match_here its (drop k s))"
    by (auto simp del: upt_Suc)
  then obtain ls' where "match_here its (drop k s) = Some ls'" "ls = k # ls'"
    by (cases "match_here its (drop k s)") auto
  with k0 have k: "1 \<le> k" "k \<le> ?n" "match_here its (drop k s) = Some ls'" "ls = k # ls'"
    by simp_all
  have kl: "k \<le> length s" using k(2) length_takeWhile_le [of "in_class cls" s] by simp
  have all: "list_all (in_class cls) (take k s)"
    using k(2) kl list_all_take_takeWhile [of k s "in_class cls"] by simp
  have ne: "take k s \<noteq> []" using k(1) kl by (cases s) auto
  have "matches (Plus cls # []) (take k s @ [])"
    using ne all matches_Nil by (rule matches_Plus)
  then show ?thesis using Plus k kl by simp
qed

lemma match_here_append_Some:
  assumes "match_here (its1 @ its2) s = Some ls"
  shows "sum_list (take (length its1) ls) \<le> length s
         \<and> matches its1 (take (sum_list (take (length its1) ls)) s)
         \<and> match_here its2 (drop (sum_list (take (length its1) ls)) s)
             = Some (drop (length its1) ls)"
  using assms
proof (induction its1 arbitrary: s ls)
  case Nil
  then show ?case by (simp add: matches_Nil)
next
  case (Cons it its1)
  from Cons.prems obtain k ls' where k: "ls = k # ls'" "k \<le> length s"
      "match_here (its1 @ its2) (drop k s) = Some ls'" "matches [it] (take k s)"
    using match_here_Cons_Some [of it "its1 @ its2" s ls] by auto
  let ?t = "sum_list (take (length its1) ls')"
  from Cons.IH [OF k(3)] have ih: "?t \<le> length (drop k s)"
      "matches its1 (take ?t (drop k s))"
      "match_here its2 (drop ?t (drop k s)) = Some (drop (length its1) ls')"
    by simp_all
  have "take (k + ?t) s = take k s @ take ?t (drop k s)" by (simp add: take_add)
  then have "matches (it # its1) (take (k + ?t) s)"
    using matches_single_append [OF k(4) ih(2)] by simp
  moreover have "k + ?t \<le> length s" using ih(1) k(2) by simp
  moreover have "drop (k + ?t) s = drop ?t (drop k s)" by (simp add: add.commute)
  ultimately show ?case using k(1) ih(3) by simp
qed

lemma match_group_Some:
  assumes "match_group p s = Some g"
  shows "\<exists>lead after. s = lead @ g @ after \<and> matches (fst p) lead \<and> matches (snd p) g"
proof -
  from assms obtain ls where ls: "match_here (fst p @ snd p) s = Some ls"
    and g: "g = take (sum_list (drop (length (fst p)) ls))
                  (drop (sum_list (take (length (fst p)) ls)) s)"
    by (auto simp: match_group_def split: option.splits)
  let ?a = "sum_list (take (length (fst p)) ls)"
  from match_here_append_Some [OF ls] have a: "matches (fst p) (take ?a s)"
      "match_here (snd p) (drop ?a s) = Some (drop (length (fst p)) ls)"
    by simp_all
  from match_here_append_Some [of "snd p" "[]" "drop ?a s" "drop (length (fst p)) ls"] a(2)
  have "matches (snd p) (take (sum_list (take (length (snd p)) (drop (length (fst p)) ls)))
           (drop ?a s))"
       "match_here [] (drop (sum_list (take (length (snd p)) (drop (length (fst p)) ls)))
           (drop ?a s)) = Some (drop (length (snd p)) (drop (length (fst p)) ls))"
    by simp_all
  then have "drop (length (snd p)) (drop (length (fst p)) ls) = []" by simp
  then have "take (length (snd p)) (drop (length (fst p)) ls) = drop (length (fst p)) ls"
    by (metis append_Nil2 append_take_drop_id)
  with \<open>matches (snd p) (take (sum_list (take (length (snd p)) (drop (length (fst p)) ls)))
           (drop ?a s))\<close>
  have mg: "matches (snd p) g" using g by simp
  have "drop ?a s = g @ drop (sum_list (drop (length (fst p)) ls)) (drop ?a s)"
    unfolding g by (simp only: append_take_drop_id)
  then have "s = take ?a s @ g @ drop (sum_list (drop (length (fst p)) ls)) (drop ?a s)"
    by (metis append_take_drop_id)
  then show ?thesis using a(1) mg by blast
qed

lemma search_Some:
  "search p s = Some g \<Longrightarrow>
     \<exists>before lead after. s = before @ lead @ g @ after
        \<and> matches (fst p) lead \<and> matches (snd p) g"
proof (induction s)
  case Nil
  then show ?case using match_group_Some [of p "[]" g] by auto
next
  case (Cons x xs)
  show ?case
  proof (cases "match_group p (x # xs)")
    case None
    with Cons.prems have "search p xs = Some g" by simp
    from Cons.IH [OF this] obtain before lead after where
      "xs = before @ lead @ g @ after" "matches (fst p) lead" "matches (snd p) g" by blast
    then have "x # xs = (x # before) @ lead @ g @ after" by simp
    then show ?thesis using \<open>matches (fst p) lead\<close> \<open>matches (snd p) g\<close> by blast
  next
    case (Some g')
    with Cons.prems have "g' = g" by simp
    with Some match_group_Some [of p "x # xs" g] obtain lead after where
      "x # xs = [] @ lead @ g @ after" "matches (fst p) lead" "matches (snd p) g" by auto
    then show ?thesis by blast
  qed
qed


lemma fillna_extract_cell:
  "fillna '' '' (extract_cell p c)
     = StrV (case c of StrV a \<Rightarrow> (case search p a of Some g \<Rightarrow> g | None \<Rightarrow> '' '')
             | _ \<Rightarrow> '' '')"
  by (cases c) (simp_all add: fillna_def isnull_def split: option.splits)

lemma make_streets_intersections_cols_text:
  assumes "getitem df ''Address'' = Inr address" and "str_accessible address"
  shows "make_streets_intersections_cols df =
     Inr (concat_axis1
            (concat_axis1 df ''Street''
               (map (\<lambda>c. StrV (case c of StrV a \<Rightarrow> (case search street_pattern a of
                                     Some g \<Rightarrow> g | None \<Rightarrow> '' '') | _ \<Rightarrow> '' '')) address))
            ''Intersection''
            (map (\<lambda>c. StrV (case c of StrV a \<Rightarrow> (case search intersection_pattern a of
                                  Some g \<Rightarrow> g | None \<Rightarrow> '' '') | _ \<Rightarrow> '' '')) address))"
  using assms
  by (simp add: make_streets_intersections_cols_def str_extract_def Let_def comp_def
      fillna_extract_cell)

lemma make_streets_intersections_cols_not_text:
  assumes "getitem df ''Address'' = Inr address" and "\<not> str_accessible address"
  shows "make_streets_intersections_cols df = Inl AttributeError"
  using assms by (simp add: make_streets_intersections_cols_def str_extract_def)

text \<open>
  Claim C7. On a table whose \<open>Address\<close> column is a text column the extraction appends the
  columns \<open>Street\<close> and \<open>Intersection\<close> to every row. Both appended cells are strings, never
  the missing value; where the address contains no match of the street pattern the
  \<open>Street\<close> cell is the single space, where it contains no match of the intersection
  pattern the \<open>Intersection\<close> cell is the single space, and an address that is missing or
  not a string gives both. On a column that is no text column the call raises.
\<close>

theorem make_streets_intersections_cols_placeholder:
  "(getitem df ''Address'' = Inr address \<and> str_accessible address \<longrightarrow>
     (\<exists>df' street intersection.
        make_streets_intersections_cols df = Inr df'
        \<and> columns df' = columns df @ [''Street'', ''Intersection'']
        \<and> length (rows df') = length (rows df)
        \<and> length street = length (rows df) \<and> length intersection = length (rows df)
        \<and> (\<forall>k < length (rows df).
              rows df' ! k = rows df ! k @ [StrV (street ! k), StrV (intersection ! k)]
              \<and> (\<forall>a. address ! k = StrV a \<and> \<not> contains_match street_pattern a
                     \<longrightarrow> street ! k = '' '')
              \<and> (\<forall>a. address ! k = StrV a \<and> \<not> contains_match intersection_pattern a
                     \<longrightarrow> intersection ! k = '' '')
              \<and> (kind_of (address ! k) \<noteq> Text
                     \<longrightarrow> street ! k = '' '' \<and> intersection ! k = '' ''))))
   \<and> (getitem df ''Address'' = Inr address \<and> \<not> str_accessible address \<longrightarrow>
        make_streets_intersections_cols df = Inl AttributeError)"
proof (intro conjI impI)
  assume a: "getitem df ''Address'' = Inr address \<and> str_accessible address"
  let ?street = "map (\<lambda>c. case c of StrV a \<Rightarrow> (case search street_pattern a of
                                     Some g \<Rightarrow> g | None \<Rightarrow> '' '') | _ \<Rightarrow> '' '') address"
  let ?intersection = "map (\<lambda>c. case c of StrV a \<Rightarrow> (case search intersection_pattern a of
                                  Some g \<Rightarrow> g | None \<Rightarrow> '' '') | _ \<Rightarrow> '' '') address"
  let ?df' = "concat_axis1 (concat_axis1 df ''Street'' (map StrV ?street))
                ''Intersection'' (map StrV ?intersection)"
  have len: "length address = length (rows df)" using a getitem_length by blast
  have r: "make_streets_intersections_cols df = Inr ?df'"
    using make_streets_intersections_cols_text [of df address] a by (simp add: comp_def)
  have c: "columns ?df' = columns df @ [''Street'', ''Intersection'']"
    by (simp add: concat_axis1_def)
  have l: "length (rows ?df') = length (rows df)"
    using len by (simp add: concat_axis1_def)
  have rows: "rows ?df' ! k = rows df ! k @ [StrV (?street ! k), StrV (?intersection ! k)]"
    if "k < length (rows df)" for k
    using that len by (simp add: concat_axis1_def)
  have s: "?street ! k = '' ''"
    if "k < length (rows df)" "address ! k = StrV a" "\<not> contains_match street_pattern a" for k a
    using that len search_None_iff [of street_pattern a] by simp
  have i: "?intersection ! k = '' ''"
    if "k < length (rows df)" "address ! k = StrV a" "\<not> contains_match intersection_pattern a"
    for k a
    using that len search_None_iff [of intersection_pattern a] by simp
  have n: "?street ! k = '' '' \<and> ?intersection ! k = '' ''"
    if "k < length (rows df)" "kind_of (address ! k) \<noteq> Text" for k
    using that len by (cases "address ! k") simp_all
  show "\<exists>df' street intersection.
        make_streets_intersections_cols df = Inr df'
        \<and> columns df' = columns df @ [''Street'', ''Intersection'']
        \<and> length (rows df') = length (rows df)
        \<and> length street = length (rows df) \<and> length intersection = length (rows df)
        \<and> (\<forall>k < length (rows df).
              rows df' ! k = rows df ! k @ [StrV (street ! k), StrV (intersection ! k)]
              \<and> (\<forall>a. address ! k = StrV a \<and> \<not> contains_match street_pattern a
                     \<longrightarrow> street ! k = '' '')
              \<and> (\<forall>a. address ! k = StrV a \<and> \<not> contains_match intersection_pattern a
                     \<longrightarrow> intersection ! k = '' '')
              \<and> (kind_of (address ! k) \<noteq> Text
                     \<longrightarrow> street ! k = '' '' \<and> intersection ! k = '' ''))"
    apply (rule exI [of _ ?df'])
    apply (rule exI [of _ ?street])
    apply (rule exI [of _ ?intersection])
    using r c l rows s i n len by (simp del: nth_map)
next
  assume "getitem df ''Address'' = Inr address \<and> \<not> str_accessible address"
  then show "make_streets_intersections_cols df = Inl AttributeError"
    using make_streets_intersections_cols_not_text by blast
qed

theorem make_streets_intersections_cols_placeholder_witness:
  "getitem \<lparr>columns = [''Address''],
            rows = [[StrV (''1 A B '' @ [CHR 0xE9] @ '' D'')], [StrV ''A B / C D''], [NaN],
                    [Num 7]]\<rparr> ''Address''
     = Inr [StrV (''1 A B '' @ [CHR 0xE9] @ '' D''), StrV ''A B / C D'', NaN, Num 7]
   \<and> str_accessible [StrV (''1 A B '' @ [CHR 0xE9] @ '' D''), StrV ''A B / C D'', NaN, Num 7]
   \<and> \<not> contains_match street_pattern ''A B / C D''
   \<and> \<not> contains_match intersection_pattern (''1 A B '' @ [CHR 0xE9] @ '' D'')
   \<and> make_streets_intersections_cols
         \<lparr>columns = [''Address''],
          rows = [[StrV (''1 A B '' @ [CHR 0xE9] @ '' D'')], [StrV ''A B / C D''], [NaN],
                  [Num 7]]\<rparr>
     = Inr \<lparr>columns = [''Address'', ''Street'', ''Intersection''],
            rows = [[StrV (''1 A B '' @ [CHR 0xE9] @ '' D''), StrV ([CHR 0xE9] @ '' D''),
                     StrV '' ''],
                    [StrV ''A B / C D'', StrV '' '', StrV ''A B / C D''],
                    [NaN, StrV '' '', StrV '' ''],
                    [Num 7, StrV '' '', StrV '' '']]\<rparr>
   \<and> getitem \<lparr>columns = [''Address''], rows = [[NaN], [NaN]]\<rparr> ''Address'' = Inr [NaN, NaN]
   \<and> \<not> str_accessible [NaN, NaN]
   \<and> make_streets_intersections_cols \<lparr>columns = [''Address''], rows = [[NaN], [NaN]]\<rparr>
     = Inl AttributeError"
proof -
  let ?a = "''1 A B '' @ [CHR 0xE9] @ '' D''"
  let ?df = "\<lparr>columns = [''Address''],
          rows = [[StrV ?a], [StrV ''A B / C D''], [NaN], [Num 7]]\<rparr>"
  let ?missing = "\<lparr>columns = [''Address''], rows = [[NaN], [NaN]]\<rparr>"
  have g: "getitem ?df ''Address'' = Inr [StrV ?a, StrV ''A B / C D'', NaN, Num 7]"
    by (simp add: getitem_def)
  have t: "str_accessible [StrV ?a, StrV ''A B / C D'', NaN, Num 7]"
    by (simp add: str_accessible_def)
  have s1: "search street_pattern ''A B / C D'' = None"
    by (simp add: street_pattern_def match_group_def is_digit_def is_alpha_def is_numeric_def
        is_space_def)
  have s2: "search intersection_pattern ?a = None"
    by (simp add: intersection_pattern_def match_group_def is_digit_def is_alpha_def
        is_numeric_def is_space_def)
  have s3: "search street_pattern ?a = Some ([CHR 0xE9] @ '' D'')"
    by (simp add: street_pattern_def match_group_def is_digit_def is_alpha_def is_numeric_def
        is_space_def)
  have s4: "search intersection_pattern ''A B / C D'' = Some ''A B / C D''"
    by (simp add: intersection_pattern_def match_group_def is_digit_def is_alpha_def
        is_numeric_def is_space_def)
  have r: "make_streets_intersections_cols ?df
     = Inr \<lparr>columns = [''Address'', ''Street'', ''Intersection''],
            rows = [[StrV ?a, StrV ([CHR 0xE9] @ '' D''), StrV '' ''],
                    [StrV ''A B / C D'', StrV '' '', StrV ''A B / C D''],
                    [NaN, StrV '' '', StrV '' ''],
                    [Num 7, StrV '' '', StrV '' '']]\<rparr>"
    using s1 s2 s3 s4
    by (simp add: make_streets_intersections_cols_def getitem_def str_extract_def
        str_accessible_def fillna_def isnull_def concat_axis1_def del: search.simps)
  have n1: "\<not> contains_match street_pattern ''A B / C D''"
    using s1 search_None_iff by blast
  have n2: "\<not> contains_match intersection_pattern ?a"
    using s2 search_None_iff by blast
  have g': "getitem ?missing ''Address'' = Inr [NaN, NaN]" by (simp add: getitem_def)
  have t': "\<not> str_accessible [NaN, NaN]" by (simp add: str_accessible_def)
  have r': "make_streets_intersections_cols ?missing = Inl AttributeError"
    using make_streets_intersections_cols_placeholder [of ?missing "[NaN, NaN]"] g' t'
    by blast
  show ?thesis
    using make_streets_intersections_cols_placeholder
      [of ?df "[StrV ?a, StrV ''A B / C D'', NaN, Num 7]"] g t r n1 n2 g' t' r'
    by simp
qed

subsection \<open>Counts per street\<close>

lemma set_unique: "set (unique xs) = set xs"
  by (simp add: unique_def)

lemma distinct_unique: "distinct (unique xs)"
  by (simp add: unique_def)

lemma distinct_fst_insort_key:
  "distinct (map fst (insort_key f x xs)) \<longleftrightarrow> fst x \<notin> fst ` set xs \<and> distinct (map fst xs)"
  by (induction xs) (auto simp: set_insort_key)

lemma distinct_fst_sort_key:
  "distinct (map fst xs) \<Longrightarrow> distinct (map fst (sort_key f xs))"
  by (induction xs) (auto simp: distinct_fst_insort_key)

lemma map_of_sort_key:
  assumes "distinct (map fst xs)"
  shows "map_of (sort_key f xs) = map_of xs"
proof (rule ext)
  fix k
  have d: "distinct (map fst (sort_key f xs))" using assms by (rule distinct_fst_sort_key)
  show "map_of (sort_key f xs) k = map_of xs k"
  proof (cases "map_of xs k")
    case None
    then have "k \<notin> fst ` set xs" by (simp add: map_of_eq_None_iff)
    then have "map_of (sort_key f xs) k = None" by (simp add: map_of_eq_None_iff)
    then show ?thesis using None by simp
  next
    case (Some v)
    then have "(k, v) \<in> set (sort_key f xs)" by (auto dest: map_of_SomeD)
    then show ?thesis using Some d by simp
  qed
qed

lemma map_of_graph:
  "map_of (map (\<lambda>c. (c, g c)) ks) c = (if c \<in> set ks then Some (g c) else None)"
  by (induction ks) auto

lemma count_list_filter_notnull:
  "c \<noteq> NaN \<Longrightarrow> count_list (filter (\<lambda>c. \<not> isnull c) xs) c = count_list xs c"
  by (induction xs) (auto simp: isnull_def)

lemma map_of_value_counts:
  "map_of (value_counts xs) c =
     (if c \<noteq> NaN \<and> c \<in> set xs then Some (count_list xs c) else None)"
proof -
  let ?present = "filter (\<lambda>c. \<not> isnull c) xs"
  let ?pairs = "map (\<lambda>c. (c, count_list ?present c)) (unique ?present)"
  have d: "distinct (map fst ?pairs)" by (simp add: comp_def distinct_unique)
  have "map_of (value_counts xs) c = map_of ?pairs c"
    using map_of_sort_key [OF d, of "\<lambda>(c, n). - int n"]
    by (simp add: value_counts_def Let_def)
  also have "\<dots> = (if c \<in> set (unique ?present) then Some (count_list ?present c) else None)"
    by (rule map_of_graph)
  also have "\<dots> = (if c \<noteq> NaN \<and> c \<in> set xs then Some (count_list xs c) else None)"
    using count_list_filter_notnull [of c xs] by (auto simp: set_unique isnull_def)
  finally show ?thesis .
qed

lemma keys_value_counts: "set (map fst (value_counts xs)) = set xs - {NaN}"
proof -
  have "set (map fst (value_counts xs)) = set (unique (filter (\<lambda>c. \<not> isnull c) xs))"
    by (simp add: value_counts_def Let_def image_image)
  then show ?thesis by (auto simp: set_unique isnull_def)
qed

lemma distinct_keys_value_counts: "distinct (map fst (value_counts xs))"
  unfolding value_counts_def Let_def
  by (intro distinct_fst_sort_key) (simp add: comp_def distinct_unique)

lemma map_select:
  "map (f \<circ> fst) (filter snd (zip xs bs)) = map fst (filter snd (zip (map f xs) bs))"
proof (induction xs arbitrary: bs)
  case Nil
  then show ?case by simp
next
  case (Cons x xs)
  then show ?case by (cases bs) auto
qed

lemma getitem_select_rows:
  "getitem df c = Inr vs \<Longrightarrow>
     getitem (select_rows df flags) c = Inr (map fst (filter snd (zip vs flags)))"
  by (auto simp: getitem_def select_rows_def map_select split: option.splits)


lemma set_street_categories:
  "set (street_categories street category elem) =
     {c. \<exists>s. (s, c) \<in> set (zip street category) \<and> cell_eq s elem}"
proof -
  have "set (map fst (filter snd (zip cs (map P ss)))) = {c. \<exists>s. (s, c) \<in> set (zip ss cs) \<and> P s}"
    for P :: "cell \<Rightarrow> bool" and ss and cs :: "cell list"
  proof (induction ss arbitrary: cs)
    case Nil
    then show ?case by simp
  next
    case (Cons s ss)
    show ?case
    proof (cases cs)
      case Nil
      then show ?thesis by simp
    next
      case (Cons c cs')
      then show ?thesis using Cons.IH [of cs'] by auto
    qed
  qed
  then show ?thesis by (simp add: street_categories_def)
qed

lemma count_list_street_categories:
  "count_list (street_categories street category elem) c =
     length (filter (\<lambda>(s, c'). cell_eq s elem \<and> c' = c) (zip street category))"
proof -
  have "count_list (map fst (filter snd (zip cs (map P ss)))) c =
          length (filter (\<lambda>(s, c'). P s \<and> c' = c) (zip ss cs))"
    for P :: "cell \<Rightarrow> bool" and ss and cs :: "cell list"
  proof (induction ss arbitrary: cs)
    case Nil
    then show ?case by simp
  next
    case (Cons s ss)
    show ?case
    proof (cases cs)
      case Nil
      then show ?thesis by simp
    next
      case (Cons c cs')
      then show ?thesis using Cons.IH [of cs'] by auto
    qed
  qed
  then show ?thesis by (simp add: street_categories_def)
qed

lemma count_cell_eq:
  assumes "c \<noteq> NaN"
  shows "count_cell street category elem c =
     (let n = length (filter (\<lambda>(s, c'). cell_eq s elem \<and> c' = c) (zip street category))
      in if n = 0 then NaN else Num (of_nat n))"
proof -
  let ?cs = "street_categories street category elem"
  have "count_list ?cs c = 0 \<longleftrightarrow> c \<notin> set ?cs" by (rule count_list_0_iff)
  then show ?thesis
    using assms count_list_street_categories [of street category elem c]
    by (auto simp: count_cell_def map_of_value_counts Let_def)
qed

lemma count_cell_absent:
  "c \<notin> set (street_categories street category elem) \<Longrightarrow> count_cell street category elem c = NaN"
  by (simp add: count_cell_def map_of_value_counts)

lemma map_constant: "(\<And>x. x \<in> set xs \<Longrightarrow> f x = v) \<Longrightarrow> map f xs = replicate (length xs) v"
  by (induction xs) auto

lemma concat_series_invariant:
  assumes names: "map fst (cols lf) = done"
    and dist: "distinct (labels lf)"
    and labs: "set (labels lf) = (\<Union>e \<in> set done. set (street_categories street category e)) - {NaN}"
    and vals: "\<forall>(e, vs) \<in> set (cols lf). vs = map (count_cell street category e) (labels lf)"
    and lf'_def: "lf' = concat_series lf elem (value_counts (street_categories street category elem))"
  shows "map fst (cols lf') = done @ [elem]"
    and "distinct (labels lf')"
    and "set (labels lf') =
           (\<Union>e \<in> set (done @ [elem]). set (street_categories street category e)) - {NaN}"
    and "\<forall>(e, vs) \<in> set (cols lf'). vs = map (count_cell street category e) (labels lf')"
proof -
  let ?vc = "value_counts (street_categories street category elem)"
  let ?new = "filter (\<lambda>l. l \<notin> set (labels lf)) (map fst ?vc)"
  have l': "labels lf' = labels lf @ ?new"
    by (simp add: lf'_def concat_series_def Let_def)
  have c': "cols lf' = map (\<lambda>(n, vs). (n, vs @ replicate (length ?new) NaN)) (cols lf)
                 @ [(elem, map (count_cell street category elem) (labels lf @ ?new))]"
    by (simp add: lf'_def concat_series_def Let_def count_cell_def)
  show "map fst (cols lf') = done @ [elem]"
    using names by (simp add: c' case_prod_beta comp_def)
  show "distinct (labels lf')"
    using dist distinct_keys_value_counts [of "street_categories street category elem"]
    by (auto simp: l')
  show "set (labels lf') =
           (\<Union>e \<in> set (done @ [elem]). set (street_categories street category e)) - {NaN}"
    using labs keys_value_counts [of "street_categories street category elem"]
    by (auto simp: l')
  have old: "vs @ replicate (length ?new) NaN = map (count_cell street category e) (labels lf')"
    if "(e, vs) \<in> set (cols lf)" for e vs
  proof -
    have vs: "vs = map (count_cell street category e) (labels lf)" using vals that by auto
    have e: "e \<in> set done" using names that by force
    have "count_cell street category e l = NaN" if "l \<in> set ?new" for l
    proof -
      from that have "l \<notin> set (labels lf)" by simp
      moreover from that keys_value_counts [of "street_categories street category elem"]
      have "l \<noteq> NaN" by auto
      ultimately have "l \<notin> set (street_categories street category e)"
        using labs e by auto
      then show ?thesis by (rule count_cell_absent)
    qed
    then have "map (count_cell street category e) ?new = replicate (length ?new) NaN"
      by (intro map_constant) blast
    then show ?thesis using vs by (simp add: l')
  qed
  show "\<forall>(e, vs) \<in> set (cols lf'). vs = map (count_cell street category e) (labels lf')"
    using old by (auto simp: c' l')
qed


lemma street_loop_invariant:
  assumes "getitem df ''Street'' = Inr street" and "getitem df ''Category'' = Inr category"
    and "map fst (cols lf) = done"
    and "distinct (labels lf)"
    and "set (labels lf) = (\<Union>e \<in> set done. set (street_categories street category e)) - {NaN}"
    and "\<forall>(e, vs) \<in> set (cols lf). vs = map (count_cell street category e) (labels lf)"
  shows "\<exists>lf'. street_loop df elems lf = Inr lf'
           \<and> map fst (cols lf') = done @ filter (\<lambda>elem. elem \<noteq> Num 0) elems
           \<and> distinct (labels lf')
           \<and> set (labels lf') =
               (\<Union>e \<in> set (done @ filter (\<lambda>elem. elem \<noteq> Num 0) elems).
                   set (street_categories street category e)) - {NaN}
           \<and> (\<forall>(e, vs) \<in> set (cols lf').
                  vs = map (count_cell street category e) (labels lf'))"
  using assms(3-6)
proof (induction elems arbitrary: lf "done")
  case Nil
  then show ?case by simp
next
  case (Cons elem elems)
  show ?case
  proof (cases "elem = Num 0")
    case True
    then show ?thesis using Cons.IH [OF Cons.prems] by simp
  next
    case False
    let ?lf = "concat_series lf elem (value_counts (street_categories street category elem))"
    have sel: "getitem (select_rows df (map (\<lambda>s. cell_eq s elem) street)) ''Category''
                 = Inr (street_categories street category elem)"
      using getitem_select_rows [OF assms(2)] by (simp add: street_categories_def)
    have step: "street_loop df (elem # elems) lf = street_loop df elems ?lf"
      using False assms(1) sel by simp
    note inv = concat_series_invariant [OF Cons.prems refl, of elem]
    from Cons.IH [OF inv] show ?thesis using False step by simp
  qed
qed

text \<open>
  Claim C8. On a table with \<open>Street\<close> and \<open>Category\<close> columns the per-street count returns
  a table with one column for every distinct \<open>Street\<close> value other than 0, in order of
  first appearance, and none for 0; its rows are labelled by the categories that occur
  with such a street, each once; and for every street (other than 0 and the missing
  value) the cell at a category is the number of rows with that street and that
  category, or \<open>NaN\<close> where there is none.
\<close>

theorem get_count_table_by_street_counts:
  "getitem df ''Street'' = Inr street \<and> getitem df ''Category'' = Inr category \<longrightarrow>
     (\<exists>local_df. get_count_table_by_street df = Inr local_df
        \<and> map fst (cols local_df) = filter (\<lambda>elem. elem \<noteq> Num 0) (unique street)
        \<and> Num 0 \<notin> set (map fst (cols local_df))
        \<and> distinct (labels local_df)
        \<and> set (labels local_df) =
            {c. c \<noteq> NaN \<and> (\<exists>s. (s, c) \<in> set (zip street category) \<and> s \<noteq> Num 0 \<and> s \<noteq> NaN)}
        \<and> (\<forall>s \<in> set street. s \<noteq> Num 0 \<and> s \<noteq> NaN \<longrightarrow>
              (\<forall>c \<in> set (labels local_df).
                 frame_cell local_df c s =
                   Some (let n = length (filter (\<lambda>(s', c'). s' = s \<and> c' = c) (zip street category))
                         in if n = 0 then NaN else Num (of_nat n)))))"
proof (intro impI)
  assume a: "getitem df ''Street'' = Inr street \<and> getitem df ''Category'' = Inr category"
  let ?done = "filter (\<lambda>elem. elem \<noteq> Num 0) (unique street)"
  from street_loop_invariant [of df street category "\<lparr>labels = [], cols = []\<rparr>" "[]" "unique street"]
    a
  obtain lf where lf: "street_loop df (unique street) \<lparr>labels = [], cols = []\<rparr> = Inr lf"
      "map fst (cols lf) = ?done" "distinct (labels lf)"
      "set (labels lf) = (\<Union>e \<in> set ?done. set (street_categories street category e)) - {NaN}"
      "\<forall>(e, vs) \<in> set (cols lf). vs = map (count_cell street category e) (labels lf)"
    by auto
  have r: "get_count_table_by_street df = Inr lf"
    using a lf(1) by (simp add: get_count_table_by_street_def)
  have z: "Num 0 \<notin> set (map fst (cols lf))" using lf(2) by simp
  have labs: "set (labels lf) =
      {c. c \<noteq> NaN \<and> (\<exists>s. (s, c) \<in> set (zip street category) \<and> s \<noteq> Num 0 \<and> s \<noteq> NaN)}"
  proof -
    have "(\<Union>e \<in> set ?done. set (street_categories street category e)) =
        {c. \<exists>s. (s, c) \<in> set (zip street category) \<and> s \<noteq> Num 0 \<and> s \<noteq> NaN}"
    proof (intro set_eqI iffI)
      fix c assume "c \<in> (\<Union>e \<in> set ?done. set (street_categories street category e))"
      then obtain e s where "e \<noteq> Num 0" "(s, c) \<in> set (zip street category)" "cell_eq s e"
        by (auto simp: set_street_categories)
      then show "c \<in> {c. \<exists>s. (s, c) \<in> set (zip street category) \<and> s \<noteq> Num 0 \<and> s \<noteq> NaN}"
        by (auto simp: cell_eq_def isnull_def)
    next
      fix c assume "c \<in> {c. \<exists>s. (s, c) \<in> set (zip street category) \<and> s \<noteq> Num 0 \<and> s \<noteq> NaN}"
      then obtain s where s: "(s, c) \<in> set (zip street category)" "s \<noteq> Num 0" "s \<noteq> NaN"
        by blast
      then have "s \<in> set street" by (auto dest: set_zip_leftD)
      then have "s \<in> set ?done" using s(2) by (simp add: set_unique)
      moreover have "c \<in> set (street_categories street category s)"
        using s by (auto simp: set_street_categories cell_eq_def isnull_def)
      ultimately show "c \<in> (\<Union>e \<in> set ?done. set (street_categories street category e))"
        by blast
    qed
    then show ?thesis using lf(4) by auto
  qed
  have cellv: "frame_cell lf c s =
      Some (let n = length (filter (\<lambda>(s', c'). s' = s \<and> c' = c) (zip street category))
            in if n = 0 then NaN else Num (of_nat n))"
    if "s \<in> set street" "s \<noteq> Num 0" "s \<noteq> NaN" "c \<in> set (labels lf)" for s c
  proof -
    have "s \<in> set (map fst (cols lf))" using that(1,2) lf(2) by (simp add: set_unique)
    then obtain vs where vs: "(s, vs) \<in> set (cols lf)" by auto
    then have v: "vs = map (count_cell street category s) (labels lf)" using lf(5) by auto
    have "distinct (map fst (cols lf))" using lf(2) by (simp add: distinct_unique)
    then have m: "map_of (cols lf) s = Some vs" using vs by (rule map_of_is_SomeI)
    from that(4) obtain i where i: "index_of (labels lf) c = Some i"
      using index_of_None [of "labels lf" c] by (cases "index_of (labels lf) c") auto
    then have i': "i < length (labels lf)" "labels lf ! i = c"
      using index_of_Some [of "labels lf" c i] by simp_all
    have "c \<noteq> NaN" using that(4) lf(4) by auto
    have eq: "(\<lambda>(s', c'). cell_eq s' s \<and> c' = c) = (\<lambda>(s', c'). s' = s \<and> c' = c)"
      using that(3) by (auto simp: cell_eq_def isnull_def fun_eq_iff)
    have "frame_cell lf c s = Some (count_cell street category s c)"
      using m i i' v by (simp add: frame_cell_def)
    then show ?thesis
      using count_cell_eq [OF \<open>c \<noteq> NaN\<close>, of street category s] eq by simp
  qed
  show "\<exists>local_df. get_count_table_by_street df = Inr local_df
        \<and> map fst (cols local_df) = filter (\<lambda>elem. elem \<noteq> Num 0) (unique street)
        \<and> Num 0 \<notin> set (map fst (cols local_df))
        \<and> distinct (labels local_df)
        \<and> set (labels local_df) =
            {c. c \<noteq> NaN \<and> (\<exists>s. (s, c) \<in> set (zip street category) \<and> s \<noteq> Num 0 \<and> s \<noteq> NaN)}
        \<and> (\<forall>s \<in> set street. s \<noteq> Num 0 \<and> s \<noteq> NaN \<longrightarrow>
              (\<forall>c \<in> set (labels local_df).
                 frame_cell local_df c s =
                   Some (let n = length (filter (\<lambda>(s', c'). s' = s \<and> c' = c) (zip street category))
                         in if n = 0 then NaN else Num (of_nat n))))"
  proof (intro exI [of _ lf] conjI ballI impI)
    show "get_count_table_by_street df = Inr lf" by (rule r)
    show "map fst (cols lf) = filter (\<lambda>elem. elem \<noteq> Num 0) (unique street)" by (rule lf(2))
    show "Num 0 \<notin> set (map fst (cols lf))" by (rule z)
    show "distinct (labels lf)" by (rule lf(3))
    show "set (labels lf) =
            {c. c \<noteq> NaN \<and> (\<exists>s. (s, c) \<in> set (zip street category) \<and> s \<noteq> Num 0 \<and> s \<noteq> NaN)}"
      by (rule labs)
  next
    fix s c
    assume "s \<in> set street" "s \<noteq> Num 0 \<and> s \<noteq> NaN" "c \<in> set (labels lf)"
    then show "frame_cell lf c s =
                   Some (let n = length (filter (\<lambda>(s', c'). s' = s \<and> c' = c) (zip street category))
                         in if n = 0 then NaN else Num (of_nat n))"
      using cellv [of s c] by simp
  qed
qed

theorem get_count_table_by_street_counts_witness:
  "getitem \<lparr>columns = [''Street'', ''Category''],
            rows = [[StrV ''A'', StrV ''x''], [Num 0, StrV ''x''], [StrV ''A'', StrV ''x''],
                    [StrV ''B'', StrV ''y'']]\<rparr> ''Street''
     = Inr [StrV ''A'', Num 0, StrV ''A'', StrV ''B'']
   \<and> getitem \<lparr>columns = [''Street'', ''Category''],
            rows = [[StrV ''A'', StrV ''x''], [Num 0, StrV ''x''], [StrV ''A'', StrV ''x''],
                    [StrV ''B'', StrV ''y'']]\<rparr> ''Category''
     = Inr [StrV ''x'', StrV ''x'', StrV ''x'', StrV ''y'']
   \<and> get_count_table_by_street
        \<lparr>columns = [''Street'', ''Category''],
         rows = [[StrV ''A'', StrV ''x''], [Num 0, StrV ''x''], [StrV ''A'', StrV ''x''],
                 [StrV ''B'', StrV ''y'']]\<rparr>
     = Inr \<lparr>labels = [StrV ''x'', StrV ''y''],
            cols = [(StrV ''A'', [Num 2, NaN]), (StrV ''B'', [NaN, Num 1])]\<rparr>
   \<and> frame_cell \<lparr>labels = [StrV ''x'', StrV ''y''],
                  cols = [(StrV ''A'', [Num 2, NaN]), (StrV ''B'', [NaN, Num 1])]\<rparr>
         (StrV ''x'') (StrV ''A'')
     = Some (Num 2)"
proof -
  let ?df = "\<lparr>columns = [''Street'', ''Category''],
         rows = [[StrV ''A'', StrV ''x''], [Num 0, StrV ''x''], [StrV ''A'', StrV ''x''],
                 [StrV ''B'', StrV ''y'']]\<rparr>"
  let ?out = "\<lparr>labels = [StrV ''x'', StrV ''y''],
            cols = [(StrV ''A'', [Num 2, NaN]), (StrV ''B'', [NaN, Num 1])]\<rparr>"
  have g1: "getitem ?df ''Street'' = Inr [StrV ''A'', Num 0, StrV ''A'', StrV ''B'']"
    by (simp add: getitem_def)
  have g2: "getitem ?df ''Category'' = Inr [StrV ''x'', StrV ''x'', StrV ''x'', StrV ''y'']"
    by (simp add: getitem_def)
  have r: "get_count_table_by_street ?df = Inr ?out"
    by (simp add: get_count_table_by_street_def getitem_def select_rows_def unique_def
        cell_eq_def isnull_def value_counts_def concat_series_def Let_def)
  have f: "frame_cell ?out (StrV ''x'') (StrV ''A'') = Some (Num 2)"
    by (simp add: frame_cell_def)
  show ?thesis
    using get_count_table_by_street_counts
      [of ?df "[StrV ''A'', Num 0, StrV ''A'', StrV ''B'']"
          "[StrV ''x'', StrV ''x'', StrV ''x'', StrV ''y'']"] g1 g2 r f
    by simp
qed

text \<open>
  Only the value 0 is skipped. The blank that \<open>make_streets_intersections_cols\<close> writes
  for an address without a street is a street like any other to this loop and gets a
  column.
\<close>

lemma get_count_table_by_street_blank_street:
  "get_count_table_by_street
     \<lparr>columns = [''Street'', ''Category''], rows = [[StrV '' '', StrV ''x'']]\<rparr>
   = Inr \<lparr>labels = [StrV ''x''], cols = [(StrV '' '', [Num 1])]\<rparr>"
  by (simp add: get_count_table_by_street_def getitem_def select_rows_def unique_def
      cell_eq_def isnull_def value_counts_def concat_series_def Let_def)

subsection \<open>Rows and columns across the library\<close>

lemma changes_only_trans:
  "changes_only df df1 A \<Longrightarrow> changes_only df1 df2 B \<Longrightarrow> changes_only df df2 (A \<union> B)"
  by (auto simp: changes_only_def)

lemma changes_only_mono:
  "changes_only df df' A \<Longrightarrow> A \<subseteq> B \<Longrightarrow> changes_only df df' B"
  by (auto simp: changes_only_def)

lemma traverse_length: "traverse f xs = Inr ys \<Longrightarrow> length ys = length xs"
  by (simp add: traverse_Inr)

lemma setitem_changes_only:
  assumes "well_formed df" and "setitem df c vs = Inr df'"
  shows "well_formed df' \<and> changes_only df df' {c}"
proof -
  have len: "length vs = length (rows df)"
    using assms(2) by (auto simp: setitem_def split: if_splits)
  from setitem_ok [OF assms(1) len, of c] assms(2) show ?thesis
    by (auto simp: changes_only_def)
qed

lemma and_then_Inr:
  "and_then r f = Inr y \<longleftrightarrow> (\<exists>x. r = Inr x \<and> f x = Inr y)"
  by (cases r) (auto simp: and_then_def)

lemma assign_from_changes_only:
  assumes "well_formed df" and "assign_from df target source f = Inr df'"
  shows "well_formed df' \<and> changes_only df df' {target}"
proof -
  from assms(2) obtain vs where "setitem df target vs = Inr df'"
    by (auto simp: assign_from_def and_then_Inr)
  with assms(1) show ?thesis by (rule setitem_changes_only)
qed

lemma make_time_cols_changes_only:
  assumes "well_formed df" and "make_time_cols to_datetime df timestamp_column = Inr df'"
  shows "changes_only df df'
           {timestamp_column, ''Year'', ''Month'', ''Day'', ''DayOfYear'', ''Hour'', ''Minute''}"
proof -
  from assms(2) obtain d0 d1 d2 d3 d4 d5 where
    s: "assign_from df timestamp_column timestamp_column to_datetime = Inr d0"
       "assign_from d0 ''Year'' timestamp_column (dt_field year) = Inr d1"
       "assign_from d1 ''Month'' timestamp_column (dt_field month) = Inr d2"
       "assign_from d2 ''Day'' timestamp_column dt_date = Inr d3"
       "assign_from d3 ''DayOfYear'' timestamp_column (dt_field dayofyear) = Inr d4"
       "assign_from d4 ''Hour'' timestamp_column (dt_field hour) = Inr d5"
       "assign_from d5 ''Minute'' timestamp_column (dt_field minute) = Inr df'"
    unfolding make_time_cols_def and_then_Inr by blast
  note a0 = assign_from_changes_only [OF assms(1) s(1)]
  note a1 = assign_from_changes_only [OF conjunct1 [OF a0] s(2)]
  note a2 = assign_from_changes_only [OF conjunct1 [OF a1] s(3)]
  note a3 = assign_from_changes_only [OF conjunct1 [OF a2] s(4)]
  note a4 = assign_from_changes_only [OF conjunct1 [OF a3] s(5)]
  note a5 = assign_from_changes_only [OF conjunct1 [OF a4] s(6)]
  note a6 = assign_from_changes_only [OF conjunct1 [OF a5] s(7)]
  note t1 = changes_only_trans [OF conjunct2 [OF a0] conjunct2 [OF a1]]
  note t2 = changes_only_trans [OF t1 conjunct2 [OF a2]]
  note t3 = changes_only_trans [OF t2 conjunct2 [OF a3]]
  note t4 = changes_only_trans [OF t3 conjunct2 [OF a4]]
  note t5 = changes_only_trans [OF t4 conjunct2 [OF a5]]
  note t6 = changes_only_trans [OF t5 conjunct2 [OF a6]]
  show ?thesis by (rule changes_only_mono [OF t6]) auto
qed

lemma make_seasons_col_changes_only:
  assumes "well_formed df" and "make_seasons_col df column = Inr df'"
  shows "changes_only df df' {''Season''}"
proof -
  from assms(2) obtain months df1 season where
    s: "setitem df ''Season'' months = Inr df1"
       "setitem df1 ''Season'' (series_map season_mapper season) = Inr df'"
    by (auto simp: make_seasons_col_def split: sum.splits)
  note a = setitem_changes_only [OF assms(1) s(1)]
  note b = setitem_changes_only [OF conjunct1 [OF a] s(2)]
  from changes_only_trans [OF conjunct2 [OF a] conjunct2 [OF b]] show ?thesis by simp
qed

lemma make_weekday_to_num_changes_only:
  assumes "well_formed df" and "make_weekday_to_num df column = Inr df'"
  shows "changes_only df df' {''weekdayNumerical''}"
proof -
  from assms(2) obtain numbers where "setitem df ''weekdayNumerical'' numbers = Inr df'"
    by (auto simp: make_weekday_to_num_def split: sum.splits)
  with assms(1) show ?thesis using setitem_changes_only by blast
qed

lemma make_address_encoding_col_changes_only:
  assumes "well_formed df" and "make_address_encoding_col df delimeter column = Inr df'"
  shows "changes_only df df' {''address_encoded''}"
proof -
  from assms(2) obtain address where "setitem df ''address_encoded'' address = Inr df'"
    by (auto simp: make_address_encoding_col_def split: sum.splits)
  with assms(1) show ?thesis using setitem_changes_only by blast
qed

lemma concat_axis1_changes_only:
  assumes "list_all (\<lambda>r. length r = length (columns df)) (rows df)"
    and "length series = length (rows df)"
  shows "list_all (\<lambda>r. length r = length (columns (concat_axis1 df name series)))
           (rows (concat_axis1 df name series))
         \<and> changes_only df (concat_axis1 df name series) {name}"
proof -
  have len: "\<forall>r \<in> set (rows df). length r = length (columns df)"
    using assms(1) by (simp add: list_all_iff)
  have 1: "list_all (\<lambda>r. length r = length (columns (concat_axis1 df name series)))
           (rows (concat_axis1 df name series))"
    using len by (auto simp: concat_axis1_def list_all_iff set_zip)
  have 2: "getitem (concat_axis1 df name series) c = getitem df c" if "c \<noteq> name" for c
  proof (cases "index_of (columns df) c")
    case None
    then show ?thesis using that by (simp add: getitem_def concat_axis1_def index_of_append)
  next
    case (Some k)
    then have "k < length (columns df)" by (auto dest: index_of_Some)
    then have "\<forall>r \<in> set (rows df). k < length r" using len by simp
    from map2_snoc_other [OF assms(2) this] Some show ?thesis
      by (simp add: getitem_def concat_axis1_def index_of_append)
  qed
  show ?thesis using 1 2 assms(2) by (auto simp: changes_only_def concat_axis1_def)
qed

lemma make_streets_intersections_cols_changes_only:
  assumes "well_formed df" and "make_streets_intersections_cols df = Inr df'"
  shows "changes_only df df' {''Street'', ''Intersection''}"
proof -
  from assms(2) obtain address where
    g: "getitem df ''Address'' = Inr address"
    and r: "df' = concat_axis1
                    (concat_axis1 df ''Street''
                       (map (fillna '' '') (map (extract_cell street_pattern) address)))
                    ''Intersection''
                    (map (fillna '' '') (map (extract_cell intersection_pattern) address))"
    by (auto simp: make_streets_intersections_cols_def str_extract_def Let_def
        split: sum.splits if_splits)
  have fit: "list_all (\<lambda>r. length r = length (columns df)) (rows df)"
    using assms(1) by (simp add: well_formed_def)
  have ls: "length (map (fillna '' '') (map (extract_cell street_pattern) address))
              = length (rows df)"
    using getitem_length [OF g] by simp
  note a = concat_axis1_changes_only [OF fit ls, of "''Street''"]
  have li: "length (map (fillna '' '') (map (extract_cell intersection_pattern) address))
              = length (rows (concat_axis1 df ''Street''
                  (map (fillna '' '') (map (extract_cell street_pattern) address))))"
    using getitem_length [OF g] conjunct2 [OF a]
    by (simp add: changes_only_def)
  note b = concat_axis1_changes_only [OF conjunct1 [OF a] li, of "''Intersection''"]
  from changes_only_trans [OF conjunct2 [OF a] conjunct2 [OF b]] show ?thesis
    unfolding r by (simp add: insert_commute)
qed


lemma map2_replicate: "map2 f xs (replicate (length xs) v) = map (\<lambda>x. f x v) xs"
  by (induction xs) auto

lemma setitem_replicate:
  "setitem df c (replicate (length (rows df)) v) = Inr (assign_scalar df c v)"
  by (simp add: setitem_def assign_scalar_def map2_replicate split: option.splits)

lemma assign_scalar_changes_only:
  "well_formed df \<Longrightarrow>
     well_formed (assign_scalar df c v) \<and> changes_only df (assign_scalar df c v) {c}"
  using setitem_changes_only [OF _ setitem_replicate] by blast

lemma select_columns_three:
  assumes "select_columns df [a, b, c] = Inr selected"
  shows "\<exists>i j k. index_of (columns df) a = Some i \<and> index_of (columns df) b = Some j
           \<and> index_of (columns df) c = Some k
           \<and> selected = \<lparr>columns = [a, b, c], rows = map (\<lambda>r. [r ! i, r ! j, r ! k]) (rows df)\<rparr>"
  using assms by (auto simp: select_columns_def split: sum.splits option.splits)

lemma zip_pairs: "zip (map f xs) (map g xs) = map (\<lambda>x. (f x, g x)) xs"
  by (induction xs) auto

lemma get_count_table_groups:
  assumes "well_formed df"
    and "getitem df category = Inr cs" and "getitem df time = Inr ts"
    and "snd (get_count_table df category time) = Inr df'"
  shows "columns df' = [category, time, ''Count'']
         \<and> distinct (map (\<lambda>r. (r ! 0, r ! 1)) (rows df'))
         \<and> set (map (\<lambda>r. (r ! 0, r ! 1)) (rows df')) =
             {(a, b). (a, b) \<in> set (zip cs ts) \<and> a \<noteq> NaN \<and> b \<noteq> NaN}"
proof -
  let ?count_df = "assign_scalar df ''Count'' (Num 1)"
  from assms(4) obtain selected where
    sel: "select_columns ?count_df [category, time, ''Count''] = Inr selected"
    and grp: "groupby_sum selected = Inr df'"
    by (auto simp: get_count_table_def Let_def split: sum.splits)
  from select_columns_three [OF sel] obtain i j k where
    ix: "index_of (columns ?count_df) category = Some i"
        "index_of (columns ?count_df) time = Some j"
    and selected: "selected = \<lparr>columns = [category, time, ''Count''],
                       rows = map (\<lambda>r. [r ! i, r ! j, r ! k]) (rows ?count_df)\<rparr>"
    by blast
  from grp have d: "distinct (columns selected)"
    by (auto simp: groupby_sum_def split: if_splits)
  then have ne: "category \<noteq> ''Count''" "time \<noteq> ''Count''" using selected by auto
  have co: "changes_only df ?count_df {''Count''}"
    using assign_scalar_changes_only [OF assms(1)] by blast
  have gc: "getitem ?count_df category = Inr cs" using co ne(1) assms(2)
    by (simp add: changes_only_def)
  have gt: "getitem ?count_df time = Inr ts" using co ne(2) assms(3)
    by (simp add: changes_only_def)
  have cs: "cs = map (\<lambda>r. r ! i) (rows ?count_df)" using gc ix(1) by (simp add: getitem_def)
  have ts: "ts = map (\<lambda>r. r ! j) (rows ?count_df)" using gt ix(2) by (simp add: getitem_def)
  let ?pair = "\<lambda>r :: cell list. (r ! 0, r ! 1)"
  let ?keyed = "filter (\<lambda>r. \<not> isnull (r ! 0) \<and> \<not> isnull (r ! 1)) (rows selected)"
  let ?keys = "sort_key (\<lambda>(a, b). (cell_key a, cell_key b)) (unique (map ?pair ?keyed))"
  have pairs: "map ?pair (rows selected) = zip cs ts"
    unfolding selected cs ts by (simp add: zip_pairs comp_def)
  have out: "map ?pair (rows df') = ?keys"
    using grp d by (auto simp: groupby_sum_def Let_def comp_def case_prod_beta)
  have k: "set ?keys = ?pair ` {r \<in> set (rows selected). r ! 0 \<noteq> NaN \<and> r ! 1 \<noteq> NaN}"
    by (simp add: set_unique isnull_def)
  have z: "set (zip cs ts) = ?pair ` set (rows selected)"
    unfolding pairs [symmetric] by simp
  have st: "set ?keys = {(a, b). (a, b) \<in> set (zip cs ts) \<and> a \<noteq> NaN \<and> b \<noteq> NaN}"
  proof (intro set_eqI iffI)
    fix p assume "p \<in> set ?keys"
    then obtain r where "r \<in> set (rows selected)" "r ! 0 \<noteq> NaN" "r ! 1 \<noteq> NaN" "p = ?pair r"
      unfolding k by blast
    then show "p \<in> {(a, b). (a, b) \<in> set (zip cs ts) \<and> a \<noteq> NaN \<and> b \<noteq> NaN}"
      unfolding z by simp
  next
    fix p assume "p \<in> {(a, b). (a, b) \<in> set (zip cs ts) \<and> a \<noteq> NaN \<and> b \<noteq> NaN}"
    then obtain r where "r \<in> set (rows selected)" "p = ?pair r" "fst p \<noteq> NaN" "snd p \<noteq> NaN"
      unfolding z by (cases p) auto
    then show "p \<in> set ?keys" unfolding k by simp
  qed
  have "columns df' = columns selected"
    using grp d by (auto simp: groupby_sum_def Let_def)
  then have c: "columns df' = [category, time, ''Count'']" using selected by simp
  have "distinct ?keys" by (simp add: distinct_unique)
  then show ?thesis unfolding out using st c by blast
qed

text \<open>
  Claim C6, as stated, says that no operation but the outlier filter and the missing-value
  selection changes the number of rows. The count table does: it groups the rows, and
  three input rows with two distinct (category, day) pairs give a table of two rows.
\<close>

theorem get_count_table_changes_row_count:
  "snd (get_count_table
          \<lparr>columns = [''cat'', ''day''],
           rows = [[StrV ''A'', Num 1], [StrV ''A'', Num 1], [StrV ''B'', Num 1]]\<rparr>
          ''cat'' ''day'')
     = Inr \<lparr>columns = [''cat'', ''day'', ''Count''],
            rows = [[StrV ''A'', Num 1, Num 2], [StrV ''B'', Num 1, Num 1]]\<rparr>
   \<and> length (rows \<lparr>columns = [''cat'', ''day'', ''Count''],
                     rows = [[StrV ''A'', Num 1, Num 2], [StrV ''B'', Num 1, Num 1]]\<rparr>)
       \<noteq> length (rows \<lparr>columns = [''cat'', ''day''],
                        rows = [[StrV ''A'', Num 1], [StrV ''A'', Num 1], [StrV ''B'', Num 1]]\<rparr>)"
  by (simp add: get_count_table_def assign_scalar_def select_columns_def groupby_sum_def
      isnull_def unique_def Let_def)

text \<open>
  Claim C6, amended. Each of the five column-deriving transforms (streets and
  intersections, time columns, weekday numbers, address flag, seasons) returns the input
  table with the columns it documents added or replaced: the same number of rows, every
  input column still there, and every other column with its cells unchanged. The outlier
  filter and the missing-value selection only drop rows. The count table is an
  aggregation: it returns a table of the columns category, time and \<open>Count\<close> with exactly
  one row for each distinct pair of category and time values (neither missing) of the
  input.
\<close>

theorem transforms_keep_rows_filters_drop_rows:
  "(well_formed df \<and> make_streets_intersections_cols df = Inr df' \<longrightarrow>
      changes_only df df' {''Street'', ''Intersection''})
   \<and> (well_formed df \<and> make_time_cols to_datetime df timestamp_column = Inr df' \<longrightarrow>
      changes_only df df'
        {timestamp_column, ''Year'', ''Month'', ''Day'', ''DayOfYear'', ''Hour'', ''Minute''})
   \<and> (well_formed df \<and> make_weekday_to_num df column = Inr df' \<longrightarrow>
      changes_only df df' {''weekdayNumerical''})
   \<and> (well_formed df \<and> make_address_encoding_col df delimeter column = Inr df' \<longrightarrow>
      changes_only df df' {''address_encoded''})
   \<and> (well_formed df \<and> make_seasons_col df column = Inr df' \<longrightarrow>
      changes_only df df' {''Season''})
   \<and> (get_outlier_removed_col df column up_threshold low_threshold = Inr df' \<longrightarrow>
      columns df' = columns df \<and> subseq (rows df') (rows df))
   \<and> columns (get_nan_records df) = columns df
   \<and> subseq (rows (get_nan_records df)) (rows df)
   \<and> (well_formed df \<and> getitem df category = Inr cs \<and> getitem df time = Inr ts
        \<and> snd (get_count_table df category time) = Inr df' \<longrightarrow>
      columns df' = [category, time, ''Count'']
      \<and> distinct (map (\<lambda>r. (r ! 0, r ! 1)) (rows df'))
      \<and> set (map (\<lambda>r. (r ! 0, r ! 1)) (rows df')) =
          {(a, b). (a, b) \<in> set (zip cs ts) \<and> a \<noteq> NaN \<and> b \<noteq> NaN})"
proof (intro conjI impI)
  show "changes_only df df' {''Street'', ''Intersection''}"
    if "well_formed df \<and> make_streets_intersections_cols df = Inr df'"
    using that make_streets_intersections_cols_changes_only by blast
  show "changes_only df df'
        {timestamp_column, ''Year'', ''Month'', ''Day'', ''DayOfYear'', ''Hour'', ''Minute''}"
    if "well_formed df \<and> make_time_cols to_datetime df timestamp_column = Inr df'"
    using that make_time_cols_changes_only by blast
  show "changes_only df df' {''weekdayNumerical''}"
    if "well_formed df \<and> make_weekday_to_num df column = Inr df'"
    using that make_weekday_to_num_changes_only by blast
  show "changes_only df df' {''address_encoded''}"
    if "well_formed df \<and> make_address_encoding_col df delimeter column = Inr df'"
    using that make_address_encoding_col_changes_only by blast
  show "changes_only df df' {''Season''}"
    if "well_formed df \<and> make_seasons_col df column = Inr df'"
    using that make_seasons_col_changes_only by blast
  show "columns df' = columns df" "subseq (rows df') (rows df)"
    if "get_outlier_removed_col df column up_threshold low_threshold = Inr df'"
    using get_outlier_removed_col_selects [OF that]
    by (auto simp: select_rows_def subseq_select)
  show "columns (get_nan_records df) = columns df"
    by (simp add: get_nan_records_def select_rows_def)
  show "subseq (rows (get_nan_records df)) (rows df)"
    by (simp add: get_nan_records_def select_rows_def subseq_select)
  show "columns df' = [category, time, ''Count'']"
    "distinct (map (\<lambda>r. (r ! 0, r ! 1)) (rows df'))"
    "set (map (\<lambda>r. (r ! 0, r ! 1)) (rows df')) =
          {(a, b). (a, b) \<in> set (zip cs ts) \<and> a \<noteq> NaN \<and> b \<noteq> NaN}"
    if "well_formed df \<and> getitem df category = Inr cs \<and> getitem df time = Inr ts
        \<and> snd (get_count_table df category time) = Inr df'"
    using get_count_table_groups [of df category cs time ts df'] that by blast+
qed

theorem transforms_keep_rows_filters_drop_rows_witness:
  "well_formed
     \<lparr>columns = [''Dates'', ''DayOfWeek'', ''Address'', ''Month''],
       rows = [[StrV ''2015-05-13'', StrV ''Wednesday'', StrV ''A B / C D'', Num 5]]\<rparr>
   \<and> make_streets_intersections_cols
     \<lparr>columns = [''Dates'', ''DayOfWeek'', ''Address'', ''Month''],
       rows = [[StrV ''2015-05-13'', StrV ''Wednesday'', StrV ''A B / C D'', Num 5]]\<rparr>
     = Inr \<lparr>columns = [''Dates'', ''DayOfWeek'', ''Address'', ''Month'', ''Street'', ''Intersection''],
       rows = [[StrV ''2015-05-13'', StrV ''Wednesday'', StrV ''A B / C D'', Num 5, StrV '' '', StrV ''A B / C D'']]\<rparr>
   \<and> changes_only
     \<lparr>columns = [''Dates'', ''DayOfWeek'', ''Address'', ''Month''],
       rows = [[StrV ''2015-05-13'', StrV ''Wednesday'', StrV ''A B / C D'', Num 5]]\<rparr>
     \<lparr>columns = [''Dates'', ''DayOfWeek'', ''Address'', ''Month'', ''Street'', ''Intersection''],
       rows = [[StrV ''2015-05-13'', StrV ''Wednesday'', StrV ''A B / C D'', Num 5, StrV '' '', StrV ''A B / C D'']]\<rparr>
     {''Street'', ''Intersection''}
   \<and> make_time_cols (\<lambda>c. Inr (TimeV \<lparr>year = 2015, month = 5, day = 13, dayofyear = 133, hour = 23, minute = 53\<rparr>))
     \<lparr>columns = [''Dates'', ''DayOfWeek'', ''Address'', ''Month''],
       rows = [[StrV ''2015-05-13'', StrV ''Wednesday'', StrV ''A B / C D'', Num 5]]\<rparr> ''Dates''
     = Inr \<lparr>columns = [''Dates'', ''DayOfWeek'', ''Address'', ''Month'', ''Year'', ''Day'', ''DayOfYear'',
                  ''Hour'', ''Minute''],
       rows = [[TimeV \<lparr>year = 2015, month = 5, day = 13, dayofyear = 133, hour = 23, minute = 53\<rparr>, StrV ''Wednesday'', StrV ''A B / C D'', Num 5, Num 2015,
                DateV 2015 5 13, Num 133, Num 23, Num 53]]\<rparr>
   \<and> changes_only
     \<lparr>columns = [''Dates'', ''DayOfWeek'', ''Address'', ''Month''],
       rows = [[StrV ''2015-05-13'', StrV ''Wednesday'', StrV ''A B / C D'', Num 5]]\<rparr>
     \<lparr>columns = [''Dates'', ''DayOfWeek'', ''Address'', ''Month'', ''Year'', ''Day'', ''DayOfYear'',
                  ''Hour'', ''Minute''],
       rows = [[TimeV \<lparr>year = 2015, month = 5, day = 13, dayofyear = 133, hour = 23, minute = 53\<rparr>, StrV ''Wednesday'', StrV ''A B / C D'', Num 5, Num 2015,
                DateV 2015 5 13, Num 133, Num 23, Num 53]]\<rparr>
     {''Dates'', ''Year'', ''Month'', ''Day'', ''DayOfYear'', ''Hour'', ''Minute''}
   \<and> make_weekday_to_num
     \<lparr>columns = [''Dates'', ''DayOfWeek'', ''Address'', ''Month''],
       rows = [[StrV ''2015-05-13'', StrV ''Wednesday'', StrV ''A B / C D'', Num 5]]\<rparr> ''DayOfWeek''
     = Inr \<lparr>columns = [''Dates'', ''DayOfWeek'', ''Address'', ''Month'', ''weekdayNumerical''],
       rows = [[StrV ''2015-05-13'', StrV ''Wednesday'', StrV ''A B / C D'', Num 5, Num 2]]\<rparr>
   \<and> changes_only
     \<lparr>columns = [''Dates'', ''DayOfWeek'', ''Address'', ''Month''],
       rows = [[StrV ''2015-05-13'', StrV ''Wednesday'', StrV ''A B / C D'', Num 5]]\<rparr>
     \<lparr>columns = [''Dates'', ''DayOfWeek'', ''Address'', ''Month'', ''weekdayNumerical''],
       rows = [[StrV ''2015-05-13'', StrV ''Wednesday'', StrV ''A B / C D'', Num 5, Num 2]]\<rparr>
     {''weekdayNumerical''}
   \<and> make_address_encoding_col
     \<lparr>columns = [''Dates'', ''DayOfWeek'', ''Address'', ''Month''],
       rows = [[StrV ''2015-05-13'', StrV ''Wednesday'', StrV ''A B / C D'', Num 5]]\<rparr> ''/'' ''Address''
     = Inr \<lparr>columns = [''Dates'', ''DayOfWeek'', ''Address'', ''Month'', ''address_encoded''],
       rows = [[StrV ''2015-05-13'', StrV ''Wednesday'', StrV ''A B / C D'', Num 5, Num 1]]\<rparr>
   \<and> changes_only
     \<lparr>columns = [''Dates'', ''DayOfWeek'', ''Address'', ''Month''],
       rows = [[StrV ''2015-05-13'', StrV ''Wednesday'', StrV ''A B / C D'', Num 5]]\<rparr>
     \<lparr>columns = [''Dates'', ''DayOfWeek'', ''Address'', ''Month'', ''address_encoded''],
       rows = [[StrV ''2015-05-13'', StrV ''Wednesday'', StrV ''A B / C D'', Num 5, Num 1]]\<rparr>
     {''address_encoded''}
   \<and> make_seasons_col
     \<lparr>columns = [''Dates'', ''DayOfWeek'', ''Address'', ''Month''],
       rows = [[StrV ''2015-05-13'', StrV ''Wednesday'', StrV ''A B / C D'', Num 5]]\<rparr> ''Month''
     = Inr \<lparr>columns = [''Dates'', ''DayOfWeek'', ''Address'', ''Month'', ''Season''],
       rows = [[StrV ''2015-05-13'', StrV ''Wednesday'', StrV ''A B / C D'', Num 5, Num 2]]\<rparr>
   \<and> changes_only
     \<lparr>columns = [''Dates'', ''DayOfWeek'', ''Address'', ''Month''],
       rows = [[StrV ''2015-05-13'', StrV ''Wednesday'', StrV ''A B / C D'', Num 5]]\<rparr>
     \<lparr>columns = [''Dates'', ''DayOfWeek'', ''Address'', ''Month'', ''Season''],
       rows = [[StrV ''2015-05-13'', StrV ''Wednesday'', StrV ''A B / C D'', Num 5, Num 2]]\<rparr>
     {''Season''}
   \<and> get_outlier_removed_col
     \<lparr>columns = [''Dates'', ''DayOfWeek'', ''Address'', ''Month''],
       rows = [[StrV ''2015-05-13'', StrV ''Wednesday'', StrV ''A B / C D'', Num 5]]\<rparr> ''Month'' 5 0
     = Inr \<lparr>columns = [''Dates'', ''DayOfWeek'', ''Address'', ''Month''], rows = []\<rparr>
   \<and> subseq []
       (rows \<lparr>columns = [''Dates'', ''DayOfWeek'', ''Address'', ''Month''],
       rows = [[StrV ''2015-05-13'', StrV ''Wednesday'', StrV ''A B / C D'', Num 5]]\<rparr>)
   \<and> snd (get_count_table
     \<lparr>columns = [''Dates'', ''DayOfWeek'', ''Address'', ''Month''],
       rows = [[StrV ''2015-05-13'', StrV ''Wednesday'', StrV ''A B / C D'', Num 5]]\<rparr> ''DayOfWeek'' ''Month'')
     = Inr \<lparr>columns = [''DayOfWeek'', ''Month'', ''Count''],
       rows = [[StrV ''Wednesday'', Num 5, Num 1]]\<rparr>
   \<and> distinct (map (\<lambda>r. (r ! 0, r ! 1)) (rows \<lparr>columns = [''DayOfWeek'', ''Month'', ''Count''],
       rows = [[StrV ''Wednesday'', Num 5, Num 1]]\<rparr>))"
proof -
  let ?df = "\<lparr>columns = [''Dates'', ''DayOfWeek'', ''Address'', ''Month''],
       rows = [[StrV ''2015-05-13'', StrV ''Wednesday'', StrV ''A B / C D'', Num 5]]\<rparr>"
  let ?streets = "\<lparr>columns = [''Dates'', ''DayOfWeek'', ''Address'', ''Month'', ''Street'', ''Intersection''],
       rows = [[StrV ''2015-05-13'', StrV ''Wednesday'', StrV ''A B / C D'', Num 5, StrV '' '', StrV ''A B / C D'']]\<rparr>"
  let ?times = "\<lparr>columns = [''Dates'', ''DayOfWeek'', ''Address'', ''Month'', ''Year'', ''Day'', ''DayOfYear'',
                  ''Hour'', ''Minute''],
       rows = [[TimeV \<lparr>year = 2015, month = 5, day = 13, dayofyear = 133, hour = 23, minute = 53\<rparr>, StrV ''Wednesday'', StrV ''A B / C D'', Num 5, Num 2015,
                DateV 2015 5 13, Num 133, Num 23, Num 53]]\<rparr>"
  let ?week = "\<lparr>columns = [''Dates'', ''DayOfWeek'', ''Address'', ''Month'', ''weekdayNumerical''],
       rows = [[StrV ''2015-05-13'', StrV ''Wednesday'', StrV ''A B / C D'', Num 5, Num 2]]\<rparr>"
  let ?addr = "\<lparr>columns = [''Dates'', ''DayOfWeek'', ''Address'', ''Month'', ''address_encoded''],
       rows = [[StrV ''2015-05-13'', StrV ''Wednesday'', StrV ''A B / C D'', Num 5, Num 1]]\<rparr>"
  let ?seas = "\<lparr>columns = [''Dates'', ''DayOfWeek'', ''Address'', ''Month'', ''Season''],
       rows = [[StrV ''2015-05-13'', StrV ''Wednesday'', StrV ''A B / C D'', Num 5, Num 2]]\<rparr>"
  let ?none = "\<lparr>columns = [''Dates'', ''DayOfWeek'', ''Address'', ''Month''], rows = ([] :: cell list list)\<rparr>"
  let ?cnt = "\<lparr>columns = [''DayOfWeek'', ''Month'', ''Count''],
       rows = [[StrV ''Wednesday'', Num 5, Num 1]]\<rparr>"
  let ?td = "(\<lambda>c. Inr (TimeV \<lparr>year = 2015, month = 5, day = 13, dayofyear = 133, hour = 23, minute = 53\<rparr>)) :: cell \<Rightarrow> error + cell"
  have w: "well_formed ?df" by (simp add: well_formed_def)
  have s1: "search street_pattern ''A B / C D'' = None"
    by (simp add: street_pattern_def match_group_def is_digit_def is_alpha_def is_numeric_def
        is_space_def)
  have s2: "search intersection_pattern ''A B / C D'' = Some ''A B / C D''"
    by (simp add: intersection_pattern_def match_group_def is_digit_def is_alpha_def
        is_numeric_def is_space_def)
  have r1: "make_streets_intersections_cols ?df = Inr ?streets"
    by (simp add: make_streets_intersections_cols_def getitem_def str_extract_def
        str_accessible_def s1 s2 fillna_def isnull_def concat_axis1_def del: search.simps)
  have r2: "make_time_cols ?td ?df ''Dates'' = Inr ?times"
    by (simp add: make_time_cols_def assign_from_def and_then_def getitem_def setitem_def)
  have r3: "make_weekday_to_num ?df ''DayOfWeek'' = Inr ?week"
    by (simp add: make_weekday_to_num_def getitem_def setitem_def series_map_def
        week_day_mapper_def)
  have r4: "make_address_encoding_col ?df ''/'' ''Address'' = Inr ?addr"
    by (simp add: make_address_encoding_col_def getitem_def setitem_def)
  have r5: "make_seasons_col ?df ''Month'' = Inr ?seas"
    by (simp add: make_seasons_col_def getitem_def setitem_def series_map_def season_mapper_def)
  have r6: "get_outlier_removed_col ?df ''Month'' 5 0 = Inr ?none"
    by (simp add: get_outlier_removed_col_def getitem_def select_rows_def)
  have g1: "getitem ?df ''DayOfWeek'' = Inr [StrV ''Wednesday'']" by (simp add: getitem_def)
  have g2: "getitem ?df ''Month'' = Inr [Num 5]" by (simp add: getitem_def)
  have r7: "snd (get_count_table ?df ''DayOfWeek'' ''Month'') = Inr ?cnt"
    by (simp add: get_count_table_def assign_scalar_def select_columns_def groupby_sum_def
        isnull_def unique_def Let_def)
  have c1: "changes_only ?df ?streets {''Street'', ''Intersection''}"
    using transforms_keep_rows_filters_drop_rows [where df = ?df and df' = ?streets] w r1
    by blast
  have c2: "changes_only ?df ?times
      {''Dates'', ''Year'', ''Month'', ''Day'', ''DayOfYear'', ''Hour'', ''Minute''}"
    using transforms_keep_rows_filters_drop_rows
      [where df = ?df and df' = ?times and to_datetime = ?td and timestamp_column = "''Dates''"]
      w r2
    by blast
  have c3: "changes_only ?df ?week {''weekdayNumerical''}"
    using transforms_keep_rows_filters_drop_rows
      [where df = ?df and df' = ?week and column = "''DayOfWeek''"] w r3
    by blast
  have c4: "changes_only ?df ?addr {''address_encoded''}"
    using transforms_keep_rows_filters_drop_rows
      [where df = ?df and df' = ?addr and column = "''Address''" and delimeter = "''/''"] w r4
    by blast
  have c5: "changes_only ?df ?seas {''Season''}"
    using transforms_keep_rows_filters_drop_rows
      [where df = ?df and df' = ?seas and column = "''Month''"] w r5
    by blast
  have c6: "subseq (rows ?none) (rows ?df)"
    using transforms_keep_rows_filters_drop_rows
      [where df = ?df and df' = ?none and column = "''Month''" and up_threshold = 5
         and low_threshold = 0] r6
    by blast
  have c7: "distinct (map (\<lambda>r. (r ! 0, r ! 1)) (rows ?cnt))"
    using transforms_keep_rows_filters_drop_rows
      [where df = ?df and df' = ?cnt and category = "''DayOfWeek''" and time = "''Month''"
         and cs = "[StrV ''Wednesday'']" and ts = "[Num 5]"] w g1 g2 r7
    by blast
  from c6 have c6': "subseq [] (rows ?df)" by simp
  show ?thesis
    using w r1 c1 r2 c2 r3 c3 r4 c4 r5 c5 r6 c6' r7 c7 by (intro conjI)
qed

end
